theory Spec2Isabelle
  imports Complex_Main "HOL-Library.Product_Lexorder" "HOL-Library.Sublist" "HOL-Library.Multiset"
begin

section \<open>Numbers\<close>

text \<open>
  Python floats are modelled as exact reals: addition, multiplication and division carry
  no rounding error.  The only rounding in the model is the one the source asks for
  explicitly, \<^verbatim>\<open>round(x, n)\<close> (to \<open>n\<close> decimals) and \<^verbatim>\<open>round(x)\<close> (to an integer), both of
  which round half to even in Python 3.
\<close>

definition round_half_even :: "real \<Rightarrow> int" where
  "round_half_even x =
     (let f = \<lfloor>x\<rfloor>; d = x - of_int f
      in if d < 1 / 2 then f
         else if 1 / 2 < d then f + 1
         else if even f then f else f + 1)"

definition py_round :: "real \<Rightarrow> nat \<Rightarrow> real" where
  "py_round x n = of_int (round_half_even (x * 10 ^ n)) / 10 ^ n"

section \<open>Data model (models.py and the stored rows)\<close>

text \<open>
  \<^verbatim>\<open>models.Segment\<close>: one engine segment, in chunk-local or job-global seconds.  Field
  \<^verbatim>\<open>text\<close> is \<open>seg_text\<close> here (\<open>text\<close> is a keyword of Isabelle).
\<close>

record Segment =
  start_sec :: real
  end_sec :: real
  speaker :: string
  seg_text :: string
  confidence :: "real option"

text \<open>
  An utterance dictionary \<^verbatim>\<open>{"startSec", "endSec", "speaker", "text", "confidence"}\<close> as
  the worker stores it.  A missing \<^verbatim>\<open>confidence\<close> key and a \<^verbatim>\<open>null\<close> one are both \<open>None\<close>:
  every reader in the source goes through \<^verbatim>\<open>.get("confidence")\<close>.
\<close>

record Utterance =
  startSec :: real
  endSec :: real
  uspeaker :: string
  utext :: string
  uconfidence :: "real option"

text \<open>
  \<^verbatim>\<open>models.ChunkPlan\<close>.  The rendered file's path and hash come from the external decoder
  and from hashing the rendered bytes; the planner's arithmetic does not read them, and
  they are left out.
\<close>

record ChunkPlan =
  plan_idx :: nat
  plan_start_sec :: real
  plan_end_sec :: real

section \<open>Job store (storage.py)\<close>

text \<open>
  A row of table \<^verbatim>\<open>jobs\<close>.  Column \<^verbatim>\<open>transcript_json\<close> holds the JSON text of a list of
  utterance dictionaries or \<^verbatim>\<open>NULL\<close>; the model keeps the list itself, since
  \<^verbatim>\<open>json.loads(json.dumps(t))\<close> gives \<open>t\<close> back.
\<close>

record job =
  source_path :: string
  source_name :: string
  source_hash :: string
  status :: string
  created_at :: string
  updated_at :: string
  duration_sec :: real
  chunks_total :: int
  chunks_done :: int
  transcript_json :: "Utterance list option"
  error_message :: "string option"
  interviewer_count :: int
  participant_count :: int

text \<open>A row of table \<^verbatim>\<open>chunks\<close>, with primary key \<open>(job_id, idx)\<close>.\<close>

record chunk =
  job_id :: string
  idx :: int
  chunk_start_sec :: real
  chunk_end_sec :: real
  chunk_path :: string
  chunk_hash :: string
  chunk_status :: string
  engine :: "string option"
  attempt_count :: int
  chunk_transcript_json :: "Utterance list option"
  chunk_confidence :: "real option"
  chunk_updated_at :: string

text \<open>
  The connection: table \<^verbatim>\<open>jobs\<close> as a map from the primary key, table \<^verbatim>\<open>chunks\<close> as the
  list of its rows.  Every operation commits before it returns, so an operation is a
  function from the database to the database.  The argument \<open>stamp\<close> is the value of
  \<^verbatim>\<open>now_iso()\<close> at the call.
\<close>

record db =
  jobs :: "string \<rightharpoonup> job"
  chunks :: "chunk list"

definition get_job :: "db \<Rightarrow> string \<Rightarrow> job option" where
  "get_job conn jid = jobs conn jid"

text \<open>\<^verbatim>\<open>UPDATE jobs SET ... WHERE id = ?\<close>: a job that does not exist is not touched.\<close>

definition update_job_status ::
  "db \<Rightarrow> string \<Rightarrow> string \<Rightarrow> string \<Rightarrow> int option \<Rightarrow> int option \<Rightarrow> string option \<Rightarrow> db" where
  "update_job_status conn stamp jid new_status new_chunks_done new_chunks_total new_error_message =
     (case jobs conn jid of
        None \<Rightarrow> conn
      | Some j \<Rightarrow>
          (let j1 = j\<lparr>status := new_status, updated_at := stamp\<rparr>;
               j2 = (case new_chunks_done of None \<Rightarrow> j1 | Some v \<Rightarrow> j1\<lparr>chunks_done := v\<rparr>);
               j3 = (case new_chunks_total of None \<Rightarrow> j2 | Some v \<Rightarrow> j2\<lparr>chunks_total := v\<rparr>);
               j4 = (case new_error_message of None \<Rightarrow> j3 | Some m \<Rightarrow> j3\<lparr>error_message := Some m\<rparr>)
           in conn\<lparr>jobs := (jobs conn)(jid \<mapsto> j4)\<rparr>))"

definition update_job_metadata :: "db \<Rightarrow> string \<Rightarrow> string \<Rightarrow> real \<Rightarrow> int \<Rightarrow> db" where
  "update_job_metadata conn stamp jid new_duration_sec new_chunks_total =
     (case jobs conn jid of
        None \<Rightarrow> conn
      | Some j \<Rightarrow>
          conn\<lparr>jobs := (jobs conn)(jid \<mapsto>
            j\<lparr>duration_sec := new_duration_sec, chunks_total := new_chunks_total,
              updated_at := stamp\<rparr>)\<rparr>)"

text \<open>
  \<^verbatim>\<open>INSERT ... ON CONFLICT(job_id, idx) DO UPDATE\<close>: the row with the same key is
  replaced in place, a new key is appended.  The foreign key to \<^verbatim>\<open>jobs\<close> is not modelled:
  the driver writes chunks of a job that \<^verbatim>\<open>command_run_job\<close> has created or found.
\<close>

definition same_key :: "chunk \<Rightarrow> chunk \<Rightarrow> bool" where
  "same_key a b = (job_id a = job_id b \<and> idx a = idx b)"

definition upsert_chunk :: "db \<Rightarrow> chunk \<Rightarrow> db" where
  "upsert_chunk conn row =
     (if list_ex (same_key row) (chunks conn)
      then conn\<lparr>chunks := map (\<lambda>c. if same_key row c then row else c) (chunks conn)\<rparr>
      else conn\<lparr>chunks := chunks conn @ [row]\<rparr>)"

definition list_chunks :: "db \<Rightarrow> string \<Rightarrow> chunk list" where
  "list_chunks conn jid = sort_key idx (filter (\<lambda>c. job_id c = jid) (chunks conn))"

definition set_final_transcript :: "db \<Rightarrow> string \<Rightarrow> string \<Rightarrow> Utterance list \<Rightarrow> string \<Rightarrow> db" where
  "set_final_transcript conn stamp jid transcript new_status =
     (case jobs conn jid of
        None \<Rightarrow> conn
      | Some j \<Rightarrow>
          conn\<lparr>jobs := (jobs conn)(jid \<mapsto>
            j\<lparr>transcript_json := Some transcript, status := new_status,
              updated_at := stamp, error_message := None\<rparr>)\<rparr>)"

definition get_transcript :: "db \<Rightarrow> string \<Rightarrow> Utterance list" where
  "get_transcript conn jid =
     (case jobs conn jid of
        None \<Rightarrow> []
      | Some j \<Rightarrow> (case transcript_json j of None \<Rightarrow> [] | Some t \<Rightarrow> t))"

text \<open>The body of the loop of \<^verbatim>\<open>toggle_swap_roles\<close>: a copy of the segment with I and D exchanged.\<close>

definition swap_segment :: "Utterance \<Rightarrow> Utterance" where
  "swap_segment segment =
     (if uspeaker segment = ''I'' then segment\<lparr>uspeaker := ''D''\<rparr>
      else if uspeaker segment = ''D'' then segment\<lparr>uspeaker := ''I''\<rparr>
      else segment)"

definition toggle_swap_roles :: "db \<Rightarrow> string \<Rightarrow> string \<Rightarrow> db \<times> Utterance list" where
  "toggle_swap_roles conn stamp jid =
     (let transcript = get_transcript conn jid;
          swapped = map swap_segment transcript
      in (set_final_transcript conn stamp jid swapped ''ready'', swapped))"

text \<open>Rows used by the closed examples below.\<close>

definition example_job :: job where
  "example_job =
     \<lparr>source_path = ''/tmp/a.m4a'', source_name = ''a.m4a'', source_hash = ''00'',
      status = ''failed'', created_at = ''t0'', updated_at = ''t0'', duration_sec = 0,
      chunks_total = 0, chunks_done = 0, transcript_json = None,
      error_message = Some ''Source fil mangler'', interviewer_count = 1,
      participant_count = 1\<rparr>"

definition example_transcript :: "Utterance list" where
  "example_transcript =
     [\<lparr>startSec = 0, endSec = 1, uspeaker = ''I'', utext = ''Hvem er du?'', uconfidence = None\<rparr>,
      \<lparr>startSec = 1, endSec = 2, uspeaker = ''D'', utext = ''Jeg er Bo.'', uconfidence = Some (9 / 10)\<rparr>,
      \<lparr>startSec = 2, endSec = 3, uspeaker = ''speaker_2'', utext = ''Hej.'', uconfidence = None\<rparr>]"

definition example_db :: db where
  "example_db =
     \<lparr>jobs = [''j1'' \<mapsto> example_job\<lparr>transcript_json := Some example_transcript\<rparr>], chunks = []\<rparr>"

section \<open>Chunk planner (audio.py)\<close>

datatype error = RuntimeError string | ValueError string | TypeError string

text \<open>
  \<^verbatim>\<open>probe_duration_seconds\<close>: the argument is the duration the external \<^verbatim>\<open>ffprobe\<close> reports
  for the source (0 when the field is missing); a duration that is not positive raises.
\<close>

definition probe_duration_seconds :: "real \<Rightarrow> error + real" where
  "probe_duration_seconds probed =
     (if probed \<le> 0
      then Inl (RuntimeError (''Kunne ikke l'' @ [CHR 0xE6] @ ''se varighed via ffprobe''))
      else Inr probed)"

text \<open>
  The \<^verbatim>\<open>while start < duration\<close> loop of \<^verbatim>\<open>create_chunks\<close>.  Rendering and hashing the
  chunk file are the external decoder's work and do not feed back into the plan; the
  model describes the runs in which every render succeeds.  The local \<^verbatim>\<open>end\<close> is \<open>fin\<close>
  and the list \<^verbatim>\<open>chunks\<close> is \<open>planned\<close>.
\<close>

function create_chunks_loop ::
  "real \<Rightarrow> real \<Rightarrow> real \<Rightarrow> nat \<Rightarrow> real \<Rightarrow> ChunkPlan list \<Rightarrow> ChunkPlan list" where
  "create_chunks_loop duration chunk_duration_sec overlap_sec i start planned =
     (let step = max 1 (chunk_duration_sec - overlap_sec)
      in if start < duration
         then (let fin = min duration (start + chunk_duration_sec)
               in create_chunks_loop duration chunk_duration_sec overlap_sec (i + 1) (start + step)
                    (planned @ [\<lparr>plan_idx = i, plan_start_sec = py_round start 3,
                                plan_end_sec = py_round fin 3\<rparr>]))
         else planned)"
  by pat_completeness auto
termination
proof (relation "measure (\<lambda>(duration, chunk_duration_sec, overlap_sec, i, start, planned).
                    nat \<lceil>duration - start\<rceil>)")
  show "wf (measure (\<lambda>(duration, chunk_duration_sec, overlap_sec, i, start, planned).
                    nat \<lceil>duration - start\<rceil>))"
    by simp
next
  fix duration chunk_duration_sec overlap_sec :: real and i :: nat and start :: real
    and planned :: "ChunkPlan list" and step fin :: real
  assume step: "step = max 1 (chunk_duration_sec - overlap_sec)" and lt: "start < duration"
  have "\<lceil>duration - (start + step)\<rceil> \<le> \<lceil>duration - start - 1\<rceil>"
    using step by (intro ceiling_mono) simp
  also have "\<dots> = \<lceil>duration - start\<rceil> - 1"
    by simp
  finally have a: "\<lceil>duration - (start + step)\<rceil> < \<lceil>duration - start\<rceil>"
    by simp
  have b: "0 < \<lceil>duration - start\<rceil>"
    using lt by simp
  show "((duration, chunk_duration_sec, overlap_sec, i + 1, start + step,
           planned @ [\<lparr>plan_idx = i, plan_start_sec = py_round start 3, plan_end_sec = py_round fin 3\<rparr>]),
          (duration, chunk_duration_sec, overlap_sec, i, start, planned))
        \<in> measure (\<lambda>(duration, chunk_duration_sec, overlap_sec, i, start, planned).
                    nat \<lceil>duration - start\<rceil>)"
    using a b by simp
qed

definition create_chunks :: "real \<Rightarrow> real \<Rightarrow> real \<Rightarrow> error + (real \<times> ChunkPlan list)" where
  "create_chunks probed chunk_duration_sec overlap_sec =
     (case probe_duration_seconds probed of
        Inl e \<Rightarrow> Inl e
      | Inr duration \<Rightarrow>
          Inr (duration, create_chunks_loop duration chunk_duration_sec overlap_sec 0 0 []))"

section \<open>Globalisation of engine segments (worker.py, transcribe_job)\<close>

text \<open>
  The loop that fills \<^verbatim>\<open>globalized\<close>: each segment of the chunk, shifted by the chunk's
  start and rounded to three decimals.
\<close>

definition globalize :: "real \<Rightarrow> Segment list \<Rightarrow> Utterance list" where
  "globalize chunk_start segments =
     map (\<lambda>segment.
            \<lparr>startSec = py_round (chunk_start + start_sec segment) 3,
             endSec = py_round (chunk_start + end_sec segment) 3,
             uspeaker = speaker segment,
             utext = seg_text segment,
             uconfidence = confidence segment\<rparr>) segments"

section \<open>Strings\<close>

text \<open>
  A Python \<^verbatim>\<open>str\<close> is a list of code points.  The model keeps the code points below 256
  (the Latin-1 block, which holds the Danish letters), one \<open>char\<close> each, so that \<open>length\<close>
  counts what \<^verbatim>\<open>len\<close> counts.  The character classes are the ones Python uses on that
  block: \<^verbatim>\<open>str.isspace\<close> (also what \<^verbatim>\<open>\s\<close>, \<^verbatim>\<open>split()\<close> and \<^verbatim>\<open>strip()\<close> use), \<^verbatim>\<open>str.isalnum\<close>
  (with the underscore, what \<^verbatim>\<open>\w\<close> matches) and \<^verbatim>\<open>str.lower\<close>.
\<close>

definition isspace :: "char \<Rightarrow> bool" where
  "isspace c =
     (let n = (of_char c :: nat)
      in (9 \<le> n \<and> n \<le> 13) \<or> (28 \<le> n \<and> n \<le> 32) \<or> n = 133 \<or> n = 160)"

definition isalnum :: "char \<Rightarrow> bool" where
  "isalnum c =
     (let n = (of_char c :: nat)
      in (48 \<le> n \<and> n \<le> 57) \<or> (65 \<le> n \<and> n \<le> 90) \<or> (97 \<le> n \<and> n \<le> 122)
         \<or> n = 170 \<or> n = 178 \<or> n = 179 \<or> n = 181 \<or> n = 185 \<or> n = 186
         \<or> (188 \<le> n \<and> n \<le> 190)
         \<or> (192 \<le> n \<and> n \<le> 214) \<or> (216 \<le> n \<and> n \<le> 246) \<or> 248 \<le> n)"

definition is_word :: "char \<Rightarrow> bool" where
  "is_word c = (isalnum c \<or> c = CHR ''_'')"

definition lower_char :: "char \<Rightarrow> char" where
  "lower_char c =
     (let n = (of_char c :: nat)
      in if (65 \<le> n \<and> n \<le> 90) \<or> (192 \<le> n \<and> n \<le> 214) \<or> (216 \<le> n \<and> n \<le> 222)
         then char_of (n + 32) else c)"

definition lower :: "string \<Rightarrow> string" where
  "lower s = map lower_char s"

text \<open>\<^verbatim>\<open>str.upper\<close> on the ASCII letters; the source applies it to one of I, i, D, d only.\<close>

definition upper_char :: "char \<Rightarrow> char" where
  "upper_char c =
     (let n = (of_char c :: nat) in if 97 \<le> n \<and> n \<le> 122 then char_of (n - 32) else c)"

text \<open>\<^verbatim>\<open>s.strip()\<close> and \<^verbatim>\<open>s.strip(chars)\<close>.\<close>

definition strip :: "string \<Rightarrow> string" where
  "strip s = rev (dropWhile isspace (rev (dropWhile isspace s)))"

definition strip_chars :: "string \<Rightarrow> string \<Rightarrow> string" where
  "strip_chars chars s =
     rev (dropWhile (\<lambda>c. c \<in> set chars) (rev (dropWhile (\<lambda>c. c \<in> set chars) s)))"

text \<open>\<^verbatim>\<open>s.split()\<close>: the maximal runs of characters that are not whitespace.\<close>

function split :: "string \<Rightarrow> string list" where
  "split s =
     (case dropWhile isspace s of
        [] \<Rightarrow> []
      | c # cs \<Rightarrow> takeWhile (\<lambda>x. \<not> isspace x) (c # cs)
                  # split (dropWhile (\<lambda>x. \<not> isspace x) (c # cs)))"
  by pat_completeness auto
termination
proof (relation "measure length")
  show "wf (measure length)" by simp
next
  fix s :: string and c cs
  assume a: "dropWhile isspace s = c # cs"
  then have nsp: "\<not> isspace c"
    by (metis hd_dropWhile list.sel(1) list.distinct(1))
  have "length (dropWhile (\<lambda>x. \<not> isspace x) (c # cs)) \<le> length cs"
    using nsp by (simp add: length_dropWhile_le)
  also have "\<dots> < length (dropWhile isspace s)"
    using a by simp
  also have "\<dots> \<le> length s"
    by (rule length_dropWhile_le)
  finally show "(dropWhile (\<lambda>x. \<not> isspace x) (c # cs), s) \<in> measure length"
    by simp
qed

text \<open>\<^verbatim>\<open>sep.join(parts)\<close>.\<close>

fun join :: "string \<Rightarrow> string list \<Rightarrow> string" where
  "join sep [] = []"
| "join sep [x] = x"
| "join sep (x # y # ys) = x @ sep @ join sep (y # ys)"

text \<open>\<^verbatim>\<open>re.sub(r"\s+", " ", s)\<close>: every maximal run of whitespace becomes one space.\<close>

function collapse_spaces :: "string \<Rightarrow> string" where
  "collapse_spaces [] = []"
| "collapse_spaces (c # cs) =
     (if isspace c then CHR '' '' # collapse_spaces (dropWhile isspace cs)
      else c # collapse_spaces cs)"
  by pat_completeness auto
termination
  by (relation "measure length") (auto simp add: length_dropWhile_le less_Suc_eq_le)

text \<open>\<^verbatim>\<open>sub in s\<close> and \<^verbatim>\<open>s.startswith(p)\<close> (the latter is \<open>prefix p s\<close>).\<close>

fun py_in :: "string \<Rightarrow> string \<Rightarrow> bool" where
  "py_in sub [] = (sub = [])"
| "py_in sub (c # cs) = (prefix sub (c # cs) \<or> py_in sub cs)"

text \<open>\<^verbatim>\<open>str(n)\<close> for an integer, as an f-string renders it.\<close>

definition digit_char :: "nat \<Rightarrow> char" where
  "digit_char d = char_of (48 + d)"

function show_nat :: "nat \<Rightarrow> string" where
  "show_nat n = (if n < 10 then [digit_char n] else show_nat (n div 10) @ [digit_char (n mod 10)])"
  by pat_completeness auto
termination
  by (relation "measure id") auto

definition show_int :: "int \<Rightarrow> string" where
  "show_int i = (if i < 0 then CHR ''-'' # show_nat (nat (- i)) else show_nat (nat i))"

text \<open>
  \<^verbatim>\<open>s.splitlines()\<close>: the line boundaries among the code points below 256 are LF, VT, FF,
  CR, CR LF, FS, GS, RS and NEL; the text after the last boundary is a line only when it
  is not empty.
\<close>

definition is_linebreak :: "char \<Rightarrow> bool" where
  "is_linebreak c =
     (let n = (of_char c :: nat) in (10 \<le> n \<and> n \<le> 13) \<or> (28 \<le> n \<and> n \<le> 30) \<or> n = 133)"

function splitlines :: "string \<Rightarrow> string list" where
  "splitlines s =
     (if s = [] then []
      else (case dropWhile (\<lambda>x. \<not> is_linebreak x) s of
              [] \<Rightarrow> [s]
            | c # rest \<Rightarrow>
                takeWhile (\<lambda>x. \<not> is_linebreak x) s
                  # splitlines (if c = CHR 0x0D \<and> rest \<noteq> [] \<and> hd rest = CHR 0x0A
                                then tl rest else rest)))"
  by pat_completeness auto
termination
proof (relation "measure length")
  show "wf (measure length)" by simp
next
  fix s :: string and c rest
  assume a: "dropWhile (\<lambda>x. \<not> is_linebreak x) s = c # rest"
  have "length (c # rest) \<le> length s"
    using length_dropWhile_le [of "\<lambda>x. \<not> is_linebreak x" s] a by simp
  then have b: "length rest < length s" by simp
  have c: "length (tl rest) \<le> length rest" by simp
  show "((if c = CHR 0x0D \<and> rest \<noteq> [] \<and> hd rest = CHR 0x0A then tl rest else rest), s)
          \<in> measure length"
    using b c by auto
qed

section \<open>Editor parser (editing.py)\<close>

text \<open>
  \<^verbatim>\<open>SPEAKER_PREFIX.match(line)\<close> for the pattern \<^verbatim>\<open>^\s*([IiDd])\s*:\s*(.*)$\<close>: the result is
  the pair of groups 1 and 2.  Each \<^verbatim>\<open>\s*\<close> is followed by something that is not
  whitespace, so the greedy match is the only one.  The lines come from \<^verbatim>\<open>splitlines\<close> and
  hold no line feed, so \<^verbatim>\<open>(.*)$\<close> takes the rest of the line.
\<close>

definition SPEAKER_PREFIX :: "string \<Rightarrow> (char \<times> string) option" where
  "SPEAKER_PREFIX line =
     (case dropWhile isspace line of
        [] \<Rightarrow> None
      | g1 # after_speaker \<Rightarrow>
          if g1 \<in> set ''IiDd''
          then (case dropWhile isspace after_speaker of
                  [] \<Rightarrow> None
                | colon # after_colon \<Rightarrow>
                    if colon = CHR '':'' then Some (g1, dropWhile isspace after_colon) else None)
          else None)"

definition SEGMENT_START_STEP :: real where
  "SEGMENT_START_STEP = 3"

definition SEGMENT_DURATION :: real where
  "SEGMENT_DURATION = 1"

text \<open>
  The first loop of \<^verbatim>\<open>parse_editor_text\<close>, over \<^verbatim>\<open>enumerate(text.splitlines())\<close>; the
  first argument is \<^verbatim>\<open>line_number\<close> of the head of the list.  A \<^verbatim>\<open>raise\<close> ends the loop.
\<close>

fun parse_lines :: "nat \<Rightarrow> string list \<Rightarrow> error + (string \<times> string) list" where
  "parse_lines line_number [] = Inr []"
| "parse_lines line_number (raw_line # rest) =
     (let line = filter (\<lambda>c. c \<noteq> CHR 0x0D) raw_line;
          stripped = strip line
      in if stripped = []
         then Inl (ValueError (''Linje '' @ show_nat line_number
                @ '' er tom. Tomme linjer er ikke tilladt; brug formatet 'I: ...' eller 'D: ...' p''
                @ [CHR 0xE5] @ '' hver linje.''))
         else (case SPEAKER_PREFIX line of
                 None \<Rightarrow>
                   Inl (ValueError (''Linje '' @ show_nat line_number
                     @ '' mangler taler-prefix. Hver ikke-tom linje skal starte med 'I:' eller 'D:'.''))
               | Some (g1, g2) \<Rightarrow>
                   (let speaker = [upper_char g1];
                        body = strip g2
                    in if body = []
                       then Inl (ValueError (''Linje '' @ show_nat line_number
                              @ '' er tom efter taler-prefix. Brug formatet 'I: ...' eller 'D: ...'.''))
                       else (case parse_lines (line_number + 1) rest of
                               Inl e \<Rightarrow> Inl e
                             | Inr utterances \<Rightarrow> Inr ((speaker, body) # utterances)))))"

text \<open>The second loop, over \<^verbatim>\<open>enumerate(utterances)\<close>.\<close>

definition convert_utterances :: "real option list \<Rightarrow> (string \<times> string) list \<Rightarrow> Utterance list" where
  "convert_utterances fallback_confidences utterances =
     map (\<lambda>(i, speaker, body).
            (let start = py_round (real i * SEGMENT_START_STEP) 3;
                 fin = py_round (start + SEGMENT_DURATION) 3;
                 conf = (if i < length fallback_confidences then fallback_confidences ! i else None)
             in \<lparr>startSec = start, endSec = fin, uspeaker = speaker, utext = body,
                  uconfidence = conf\<rparr>))
         (enumerate 0 utterances)"

definition parse_editor_text :: "string \<Rightarrow> Utterance list \<Rightarrow> error + Utterance list" where
  "parse_editor_text input_text fallback_transcript =
     (case parse_lines 1 (splitlines input_text) of
        Inl e \<Rightarrow> Inl e
      | Inr utterances \<Rightarrow>
          if utterances = []
          then Inl (ValueError
                 ''Ingen gyldige ytringer fundet. Brug formatet 'I: ...' eller 'D: ...'.'')
          else Inr (convert_utterances (map uconfidence fallback_transcript) utterances))"

text \<open>What the first loop collects from a line that matches.\<close>

definition line_utterance :: "string \<Rightarrow> string \<times> string" where
  "line_utterance raw_line =
     (case SPEAKER_PREFIX (filter (\<lambda>c. c \<noteq> CHR 0x0D) raw_line) of
        None \<Rightarrow> ([], [])
      | Some (g1, g2) \<Rightarrow> ([upper_char g1], strip g2))"

section \<open>Remote engine, retry loop (openai_engine.py)\<close>

text \<open>
  The \<^verbatim>\<open>try\<close> block of \<^verbatim>\<open>transcribe_chunk_openai\<close> calls the remote service twice and
  parses and merges the two answers; what it gives at attempt \<open>k\<close> is the environment's
  \<open>attempt_result k\<close>: the merged segments, or the text \<^verbatim>\<open>str(exc)\<close> of the exception it
  raised.  The sleeps between attempts take time and change no value; they are left out.
\<close>

definition avg_confidence :: "Segment list \<Rightarrow> real option" where
  "avg_confidence segments =
     (let confidences = List.map_filter confidence segments
      in if confidences = [] then None
         else Some (sum_list confidences / real (length confidences)))"

text \<open>
  The \<^verbatim>\<open>for attempt in range(1, max_retries + 1)\<close> loop.  \<open>Inl last_error\<close> is the loop
  left without a \<^verbatim>\<open>return\<close>, by \<^verbatim>\<open>break\<close> or at the end of the range.
\<close>

fun retry_loop ::
  "(int \<Rightarrow> string + Segment list) \<Rightarrow> int \<Rightarrow> int list \<Rightarrow> string option
     \<Rightarrow> string option + (Segment list \<times> real option)" where
  "retry_loop attempt_result max_retries [] last_error = Inl last_error"
| "retry_loop attempt_result max_retries (attempt # rest) last_error =
     (case attempt_result attempt of
        Inr segments \<Rightarrow> Inr (segments, avg_confidence segments)
      | Inl exc \<Rightarrow>
          if attempt \<ge> max_retries then Inl (Some exc)
          else retry_loop attempt_result max_retries rest (Some exc))"

text \<open>
  The message of the final \<^verbatim>\<open>raise\<close>, character by character as the source file has it:
  after \<^verbatim>\<open>fors\<close> come the two code points U+00C3 and U+00B8.  \<^verbatim>\<open>{last_error}\<close> renders
  \<^verbatim>\<open>None\<close> when no attempt was made.
\<close>

definition retry_message :: "int \<Rightarrow> string option \<Rightarrow> string" where
  "retry_message max_retries last_error =
     ''OpenAI transskription fejlede efter '' @ show_int max_retries @ '' fors''
       @ [CHR 0xC3, CHR 0xB8] @ ''g: ''
       @ (case last_error of None \<Rightarrow> ''None'' | Some exc \<Rightarrow> exc)"

definition transcribe_chunk_openai ::
  "bool \<Rightarrow> string \<Rightarrow> (int \<Rightarrow> string + Segment list) \<Rightarrow> int
     \<Rightarrow> error + (Segment list \<times> real option)" where
  "transcribe_chunk_openai openai_installed api_key_env attempt_result max_retries =
     (if \<not> openai_installed
      then Inl (RuntimeError ''openai-pakken mangler. Installer python/requirements.txt'')
      else if strip api_key_env = [] then Inl (RuntimeError ''OPENAI_API_KEY mangler'')
      else (case retry_loop attempt_result max_retries [1..max_retries] None of
              Inr result \<Rightarrow> Inr result
            | Inl last_error \<Rightarrow> Inl (RuntimeError (retry_message max_retries last_error))))"

section \<open>Post-processor (merge.py)\<close>

definition BACKCHANNELS :: "string list" where
  "BACKCHANNELS =
     [''ja'', ''jo'', ''nej'', ''ok'', ''okay'', ''n'' @ [CHR 0xE5], ''n'' @ [CHR 0xE5] @ ''h'',
      ''mhm'', ''mm'', ''mmm'', ''klart'', ''fedt'', ''pr'' @ [CHR 0xE6] @ ''cis'', ''super'',
      ''tak'', ''det g'' @ [CHR 0xF8] @ ''r jeg'', ''det vil jeg g'' @ [CHR 0xF8] @ ''re'',
      ''ja okay'', ''ja ja'', ''nej nej'']"

definition FILLER_TOKENS :: "string list" where
  "FILLER_TOKENS =
     [[CHR 0xF8] @ ''h'', [CHR 0xF8] @ ''hm'', [CHR 0xF8] @ ''hh'', ''eh'', ''hmm'']"

definition TECHNICAL_META_KEYWORDS :: "string list" where
  "TECHNICAL_META_KEYWORDS =
     [''kan du h'' @ [CHR 0xF8] @ ''re'', ''h'' @ [CHR 0xF8] @ ''rer mig'',
      ''h'' @ [CHR 0xF8] @ ''re mig'', ''lyden'', ''mikrofon'', ''kamera'',
      ''dele sk'' @ [CHR 0xE6] @ ''rm'', ''del sk'' @ [CHR 0xE6] @ ''rm'',
      ''sk'' @ [CHR 0xE6] @ ''rm'', ''link'', ''chat'', ''chatten'', ''nettet'', ''internet'',
      ''forbindelse'', ''hakker'', ''langsom'', ''opkald'', ''teams'', ''zoom'',
      ''kan ikke '' @ [CHR 0xE5] @ ''bne'', ''kan ikke se'', ''driller'']"

definition TECHNICAL_META_STRONG_KEYWORDS :: "string list" where
  "TECHNICAL_META_STRONG_KEYWORDS =
     [''kan du pr'' @ [CHR 0xF8] @ ''ve at gentage'', ''kan du gentage'',
      ''kan du se min sk'' @ [CHR 0xE6] @ ''rm'', ''kan du se den nu'', ''er det mig igen'',
      ''l'' @ [CHR 0xF8] @ ''ber t'' @ [CHR 0xF8] @ ''r for str'' @ [CHR 0xF8] @ ''m'',
      ''deler sk'' @ [CHR 0xE6] @ ''rm'']"

definition SHORT_BACKCHANNEL_MAX_WORDS :: nat where "SHORT_BACKCHANNEL_MAX_WORDS = 2"
definition TECHNICAL_META_MAX_WORDS :: nat where "TECHNICAL_META_MAX_WORDS = 10"
definition TECHNICAL_META_STRONG_MAX_WORDS :: nat where "TECHNICAL_META_STRONG_MAX_WORDS = 20"
definition INTERRUPTION_MAX_WORDS :: nat where "INTERRUPTION_MAX_WORDS = 3"
definition INTERRUPTION_MAX_GAP_SEC :: real where "INTERRUPTION_MAX_GAP_SEC = 8"
definition SPEAKER_RUN_MERGE_MAX_GAP_SEC :: real where "SPEAKER_RUN_MERGE_MAX_GAP_SEC = 10"

text \<open>
  The helpers \<^verbatim>\<open>_normalize\<close>, \<^verbatim>\<open>_word_count\<close>, \<^verbatim>\<open>_strip_fillers\<close>, \<^verbatim>\<open>_is_backchannel\<close> and
  \<^verbatim>\<open>_is_technical_meta\<close>, named without the leading underscore (\<open>normalize\<close> is a constant
  of HOL, so \<^verbatim>\<open>_normalize\<close> is \<open>normalize_text\<close>).
\<close>

definition normalize_text :: "string \<Rightarrow> string" where
  "normalize_text s =
     strip (collapse_spaces (map (\<lambda>c. if is_word c \<or> isspace c then c else CHR '' '') (lower s)))"

definition word_count :: "string \<Rightarrow> nat" where
  "word_count s = (if s = [] then 0 else length (split s))"

definition strip_fillers :: "string \<Rightarrow> string" where
  "strip_fillers s =
     (let cleaned = filter (\<lambda>token. filter is_word (lower token) \<notin> set FILLER_TOKENS) (split s)
      in strip_chars '' ,.-'' (collapse_spaces (join '' '' cleaned)))"

definition is_backchannel :: "string \<Rightarrow> bool" where
  "is_backchannel s =
     (let normalized = normalize_text s
      in if normalized = [] then True
         else word_count normalized \<le> SHORT_BACKCHANNEL_MAX_WORDS \<and> normalized \<in> set BACKCHANNELS)"

definition is_technical_meta :: "string \<Rightarrow> bool" where
  "is_technical_meta s =
     (let normalized = normalize_text s
      in if normalized = [] then True
         else (let words = word_count normalized;
                   has_keyword = list_ex (\<lambda>keyword. py_in keyword normalized) TECHNICAL_META_KEYWORDS
               in if has_keyword \<and> words \<le> TECHNICAL_META_MAX_WORDS then True
                  else (let has_strong_keyword =
                              list_ex (\<lambda>keyword. py_in keyword normalized)
                                TECHNICAL_META_STRONG_KEYWORDS
                        in has_strong_keyword \<and> words \<le> TECHNICAL_META_STRONG_MAX_WORDS)))"

text \<open>
  \<^verbatim>\<open>sorted(segments, key=lambda seg: (seg.start_sec, seg.end_sec))\<close>: a stable sort, as
  \<open>sort_key\<close> is.
\<close>

definition sort_segments :: "Segment list \<Rightarrow> Segment list" where
  "sort_segments segments = sort_key (\<lambda>seg. (start_sec seg, end_sec seg)) segments"

text \<open>
  \<^verbatim>\<open>previous.confidence = max(previous.confidence or 0.0, segment.confidence)\<close> under
  \<^verbatim>\<open>if segment.confidence is not None\<close>, and \<^verbatim>\<open>segment.confidence or previous.confidence\<close>
  (in Python \<^verbatim>\<open>None\<close> and \<^verbatim>\<open>0.0\<close> are both false).
\<close>

definition max_confidence :: "real option \<Rightarrow> real option \<Rightarrow> real option" where
  "max_confidence previous_confidence segment_confidence =
     (case segment_confidence of
        None \<Rightarrow> previous_confidence
      | Some c \<Rightarrow> Some (max (case previous_confidence of None \<Rightarrow> 0 | Some p \<Rightarrow> p) c))"

definition confidence_or :: "real option \<Rightarrow> real option \<Rightarrow> real option" where
  "confidence_or a b = (case a of None \<Rightarrow> b | Some c \<Rightarrow> if c = 0 then b else Some c)"

text \<open>
  One pass of the loop of \<^verbatim>\<open>dedupe_segments\<close>: \<open>merged\<close> before and after the segment.
  The source mutates \<^verbatim>\<open>merged[-1]\<close> in place; here the last element is replaced.
\<close>

definition dedupe_step :: "Segment list \<Rightarrow> Segment \<Rightarrow> Segment list" where
  "dedupe_step merged segment =
     (if strip (seg_text segment) = [] then merged
      else if merged = [] then merged @ [segment]
      else (let previous = last merged;
                same_text = (normalize_text (seg_text previous) = normalize_text (seg_text segment));
                overlapping = (start_sec segment \<le> end_sec previous + 1 / 4);
                same_speaker = (speaker segment = speaker previous)
            in if same_text \<and> overlapping
               then butlast merged @
                      [previous\<lparr>end_sec := max (end_sec previous) (end_sec segment),
                                confidence := max_confidence (confidence previous) (confidence segment)\<rparr>]
               else (let prev_norm = normalize_text (seg_text previous);
                         curr_norm = normalize_text (seg_text segment)
                     in if overlapping \<and> same_speaker \<and> prev_norm \<noteq> [] \<and> curr_norm \<noteq> []
                           \<and> prefix prev_norm curr_norm
                        then butlast merged @
                               [previous\<lparr>seg_text := seg_text segment,
                                         end_sec := max (end_sec previous) (end_sec segment),
                                         confidence := confidence_or (confidence segment)
                                                         (confidence previous)\<rparr>]
                        else if overlapping \<and> same_speaker \<and> prev_norm \<noteq> [] \<and> curr_norm \<noteq> []
                                \<and> prefix curr_norm prev_norm
                        then merged
                        else merged @ [segment])))"

definition dedupe_segments :: "Segment list \<Rightarrow> Segment list" where
  "dedupe_segments segments = foldl dedupe_step [] (sort_segments segments)"

text \<open>The first loop of \<^verbatim>\<open>filter_style_noise\<close>: what one segment adds to \<open>filtered\<close>.\<close>

definition clean_segment :: "Segment \<Rightarrow> Segment option" where
  "clean_segment segment =
     (let cleaned_text = strip_fillers (strip (seg_text segment))
      in if cleaned_text = [] then None
         else if is_backchannel cleaned_text then None
         else if is_technical_meta cleaned_text then None
         else Some \<lparr>start_sec = start_sec segment, end_sec = end_sec segment,
                     speaker = speaker segment, seg_text = cleaned_text,
                     confidence = confidence segment\<rparr>)"

text \<open>
  The condition under which the \<^verbatim>\<open>while\<close> loop of \<^verbatim>\<open>filter_style_noise\<close> drops \<open>current\<close>:
  a short backchannel of another speaker between two segments of one speaker, close in
  time to both.
\<close>

definition is_interruption :: "Segment \<Rightarrow> Segment \<Rightarrow> Segment \<Rightarrow> bool" where
  "is_interruption previous current following =
     (let current_words = word_count (normalize_text (seg_text current))
      in current_words \<le> INTERRUPTION_MAX_WORDS
         \<and> is_backchannel (seg_text current)
         \<and> speaker previous = speaker following
         \<and> speaker previous \<noteq> speaker current
         \<and> start_sec current - end_sec previous \<le> INTERRUPTION_MAX_GAP_SEC
         \<and> start_sec following - end_sec current \<le> INTERRUPTION_MAX_GAP_SEC)"

text \<open>The \<^verbatim>\<open>while i < len(compacted) - 1\<close> loop; \<^verbatim>\<open>compacted.pop(i)\<close> removes element \<open>i\<close>.\<close>

function remove_interruptions :: "nat \<Rightarrow> Segment list \<Rightarrow> Segment list" where
  "remove_interruptions i compacted =
     (if i + 1 < length compacted
      then (if is_interruption (compacted ! (i - 1)) (compacted ! i) (compacted ! (i + 1))
            then remove_interruptions i (take i compacted @ drop (Suc i) compacted)
            else remove_interruptions (i + 1) compacted)
      else compacted)"
  by pat_completeness auto
termination
  by (relation "measure (\<lambda>(i, compacted). length compacted - i)") auto

declare remove_interruptions.simps [simp del]

text \<open>One pass of the last loop of \<^verbatim>\<open>filter_style_noise\<close>, over \<open>merged_runs\<close>.\<close>

definition merge_runs_step :: "Segment list \<Rightarrow> Segment \<Rightarrow> Segment list" where
  "merge_runs_step merged_runs segment =
     (if merged_runs = [] then merged_runs @ [segment]
      else (let previous = last merged_runs
            in if speaker previous = speaker segment
                  \<and> start_sec segment - end_sec previous \<le> SPEAKER_RUN_MERGE_MAX_GAP_SEC
               then butlast merged_runs @
                      [previous\<lparr>seg_text := strip (seg_text previous @ '' '' @ seg_text segment),
                                end_sec := max (end_sec previous) (end_sec segment),
                                confidence := max_confidence (confidence previous) (confidence segment)\<rparr>]
               else merged_runs @ [segment]))"

definition filter_style_noise :: "Segment list \<Rightarrow> Segment list" where
  "filter_style_noise segments =
     (let filtered = List.map_filter clean_segment (sort_segments segments)
      in if length filtered < 3 then filtered
         else (let compacted = remove_interruptions 1 filtered
               in foldl merge_runs_step [] compacted))"

definition expected_interviewer_slots :: "int \<Rightarrow> int \<Rightarrow> int \<Rightarrow> int" where
  "expected_interviewer_slots unique_speakers interviewer_cnt participant_cnt =
     (if unique_speakers \<le> 1 then 1
      else (let interviewer_cnt = max 1 interviewer_cnt;
                participant_cnt = max 1 participant_cnt;
                total_expected = max 1 (interviewer_cnt + participant_cnt);
                scaled = round_half_even
                           (real_of_int (unique_speakers * interviewer_cnt) / real_of_int total_expected);
                slots = max 1 scaled;
                slots = min slots (max 1 (unique_speakers - 1))
            in max 1 slots))"

text \<open>
  \<^verbatim>\<open>_SpeakerStats\<close>, and the dictionary \<^verbatim>\<open>stats_by_speaker\<close> as the list of its items in
  insertion order; \<^verbatim>\<open>speaker_order\<close> is the list of its keys.
\<close>

record SpeakerStats =
  first_start :: real
  utterance_count :: nat
  question_count :: nat
  total_words :: nat

definition raw_speaker_id :: "Segment \<Rightarrow> string" where
  "raw_speaker_id segment = (if speaker segment = [] then ''speaker_0'' else speaker segment)"

definition collect_stats ::
  "(string \<times> SpeakerStats) list \<Rightarrow> Segment \<Rightarrow> (string \<times> SpeakerStats) list" where
  "collect_stats stats_by_speaker segment =
     (let speaker_id = raw_speaker_id segment;
          normalized = normalize_text (seg_text segment);
          words = word_count normalized;
          known = (if map_of stats_by_speaker speaker_id = None
                   then stats_by_speaker @
                          [(speaker_id, \<lparr>first_start = start_sec segment, utterance_count = 0,
                                         question_count = 0, total_words = 0\<rparr>)]
                   else stats_by_speaker)
      in map (\<lambda>(k, stats).
                if k = speaker_id
                then (k, stats\<lparr>utterance_count := utterance_count stats + 1,
                              total_words := total_words stats + words,
                              question_count := question_count stats
                                + (if py_in ''?'' (seg_text segment) then 1 else 0)\<rparr>)
                else (k, stats)) known)"

definition speaker_score :: "SpeakerStats \<Rightarrow> real" where
  "speaker_score stats =
     (let utterances = max 1 (utterance_count stats);
          avg_words = real (total_words stats) / real utterances;
          question_density = real (question_count stats) / real utterances;
          start_bonus = max 0 (1 - min (first_start stats) 120 / 120);
          brevity_bonus = 1 / max 1 avg_words
      in question_density * 3 + start_bonus + brevity_bonus * 2)"

definition infer_interviewer_speakers :: "Segment list \<Rightarrow> int \<Rightarrow> int \<Rightarrow> string list" where
  "infer_interviewer_speakers ordered interviewer_cnt participant_cnt =
     (if ordered = [] then [''speaker_0'']
      else (let stats_by_speaker = foldl collect_stats [] ordered;
                speaker_order = map fst stats_by_speaker
            in if length stats_by_speaker \<le> 1 then [hd speaker_order]
               else (let slots = expected_interviewer_slots (int (length stats_by_speaker))
                                   interviewer_cnt participant_cnt;
                         scored = map (\<lambda>(speaker_id, stats).
                                         (speaker_id, speaker_score stats, first_start stats))
                                    stats_by_speaker;
                         ranked = sort_key (\<lambda>(speaker_id, score, start). (- score, start)) scored;
                         picked = map fst (take (nat slots) ranked)
                     in if picked \<noteq> [] then picked else [hd speaker_order])))"

definition map_to_interviewer_participant :: "Segment list \<Rightarrow> int \<Rightarrow> int \<Rightarrow> Utterance list" where
  "map_to_interviewer_participant segments interviewer_cnt participant_cnt =
     (let ordered = sort_segments segments;
          interviewer_speakers = infer_interviewer_speakers ordered interviewer_cnt participant_cnt
      in map (\<lambda>segment.
                \<lparr>startSec = py_round (start_sec segment) 3,
                 endSec = py_round (end_sec segment) 3,
                 uspeaker = (if raw_speaker_id segment \<in> set interviewer_speakers then ''I'' else ''D''),
                 utext = strip (seg_text segment),
                 uconfidence = map_option (\<lambda>c. py_round c 4) (confidence segment)\<rparr>) ordered)"

definition merge_and_label :: "Segment list \<Rightarrow> int \<Rightarrow> int \<Rightarrow> Utterance list" where
  "merge_and_label segments interviewer_cnt participant_cnt =
     map_to_interviewer_participant (filter_style_noise (dedupe_segments segments))
       interviewer_cnt participant_cnt"

text \<open>
  \<^verbatim>\<open>worker._coerce_segments\<close>: the stored utterance dictionaries back into segments, as the
  driver does before it calls \<^verbatim>\<open>merge_and_label\<close>.  In \<^verbatim>\<open>raw.get("endSec") or start\<close> an end of
  0 counts as missing.
\<close>

definition coerce_segment :: "Utterance \<Rightarrow> Segment option" where
  "coerce_segment raw =
     (let body = strip (utext raw)
      in if body = [] then None
         else (let start = startSec raw;
                   fin = (if endSec raw = 0 then start else endSec raw)
               in Some \<lparr>start_sec = start, end_sec = max start fin,
                         speaker = (if uspeaker raw = [] then ''speaker_0'' else uspeaker raw),
                         seg_text = body, confidence = uconfidence raw\<rparr>))"

definition coerce_segments :: "Utterance list \<Rightarrow> Segment list" where
  "coerce_segments raw_segments = List.map_filter coerce_segment raw_segments"

text \<open>Segments used by the closed examples below.\<close>

definition example_segments :: "Segment list" where
  "example_segments =
     [\<lparr>start_sec = 0, end_sec = 3, speaker = ''A'', seg_text = ''Hvem?'', confidence = None\<rparr>,
      \<lparr>start_sec = 31 / 10, end_sec = 7, speaker = ''B'', seg_text = ''Bo'', confidence = None\<rparr>,
      \<lparr>start_sec = 71 / 10, end_sec = 9, speaker = ''C'', seg_text = ''Ib'', confidence = None\<rparr>]"

section \<open>Transcription driver (worker.py)\<close>

text \<open>
  What the driver reads from outside the process: whether the source file exists, the
  duration \<^verbatim>\<open>ffprobe\<close> reports, the SHA-256 of the rendered file of chunk \<open>i\<close>, the outcome
  of \<^verbatim>\<open>transcribe_chunk_openai\<close> for chunk \<open>i\<close> (\<open>Inl\<close> is \<^verbatim>\<open>str(exc)\<close> of the exception it raised)
  and of \<^verbatim>\<open>transcribe_chunk_fallback\<close>, and the value of \<^verbatim>\<open>now_iso()\<close>, taken as one stamp for
  the run.  The decoder is taken to succeed; checkpoint files and the deletion of old job
  directories touch the file system only and are left out.
\<close>

datatype fallback_outcome =
    FallbackOk "Segment list" real
  | LowSpeakerConfidenceError string
  | FallbackError string

record world =
  source_exists :: bool
  probed_duration :: real
  file_hash :: "int \<Rightarrow> string"
  remote :: "int \<Rightarrow> string + (Segment list \<times> real option)"
  fallback :: "int \<Rightarrow> fallback_outcome"
  now_iso :: string

text \<open>
  The payload of a \<^verbatim>\<open>progress\<close> or \<^verbatim>\<open>paused\<close> event.  \<^verbatim>\<open>jobId\<close> is the same in every event
  of a run; \<^verbatim>\<open>etaSeconds\<close> and \<^verbatim>\<open>message\<close> carry wall-clock readings.  The three are left out.
\<close>

record payload =
  pstatus :: string
  stage :: string
  percent :: real
  chunksDone :: int
  chunksTotal :: int

datatype event =
    Progress payload
  | Paused payload
  | Error string
  | Result real "Utterance list"

definition progress_payload :: "string \<Rightarrow> string \<Rightarrow> real \<Rightarrow> int \<Rightarrow> int \<Rightarrow> payload" where
  "progress_payload st stg pct chunks_done_now chunks_total_now =
     \<lparr>pstatus = st, stage = stg, percent = py_round (max 0 (min 100 pct)) 2,
      chunksDone = chunks_done_now, chunksTotal = chunks_total_now\<rparr>"

text \<open>
  The row \<^verbatim>\<open>preprocess_if_needed\<close> stores for a planned chunk.  The path is
  \<^verbatim>\<open>chunks_dir(job_id) / f"chunk_{idx:04d}.wav"\<close>, written relative to the data directory.
\<close>

definition zfill4 :: "string \<Rightarrow> string" where
  "zfill4 s = replicate (4 - length s) (CHR ''0'') @ s"

definition planned_row :: "world \<Rightarrow> string \<Rightarrow> ChunkPlan \<Rightarrow> chunk" where
  "planned_row w jid plan =
     \<lparr>job_id = jid, idx = int (plan_idx plan), chunk_start_sec = plan_start_sec plan,
      chunk_end_sec = plan_end_sec plan,
      chunk_path = ''jobs/'' @ jid @ ''/chunks/chunk_'' @ zfill4 (show_nat (plan_idx plan)) @ ''.wav'',
      chunk_hash = file_hash w (int (plan_idx plan)), chunk_status = ''queued'', engine = None,
      attempt_count = 0, chunk_transcript_json = None, chunk_confidence = None,
      chunk_updated_at = now_iso w\<rparr>"

text \<open>
  \<^verbatim>\<open>preprocess_if_needed\<close>.  \<open>Inl\<close> is an exception that leaves the function: the probe
  failing, or \<^verbatim>\<open>get_job\<close> returning \<^verbatim>\<open>None\<close>.
\<close>

definition preprocess_if_needed :: "db \<Rightarrow> world \<Rightarrow> string \<Rightarrow> error + (db \<times> real \<times> chunk list)" where
  "preprocess_if_needed conn w jid =
     (let rows = list_chunks conn jid
      in if rows \<noteq> []
         then (case get_job conn jid of
                 None \<Rightarrow> Inl (TypeError ''NoneType object is not subscriptable'')
               | Some j \<Rightarrow>
                   if duration_sec j \<le> 0
                   then (case probe_duration_seconds (probed_duration w) of
                           Inl e \<Rightarrow> Inl e
                         | Inr duration \<Rightarrow>
                             Inr (update_job_metadata conn (now_iso w) jid duration (int (length rows)),
                                  duration, rows))
                   else Inr (conn, duration_sec j, rows))
         else (case create_chunks (probed_duration w) 240 (3 / 2) of
                 Inl e \<Rightarrow> Inl e
               | Inr (duration, planned) \<Rightarrow>
                   (let conn1 = update_job_metadata conn (now_iso w) jid duration (int (length planned));
                        conn2 = foldl (\<lambda>c plan. upsert_chunk c (planned_row w jid plan)) conn1 planned
                    in Inr (conn2, duration, list_chunks conn2 jid))))"

text \<open>
  The \<^verbatim>\<open>for row in chunk_rows\<close> loop of \<^verbatim>\<open>transcribe_job\<close>.  The state is the connection,
  \<^verbatim>\<open>done_chunks\<close> and the events printed so far; the last component is the exit code of a
  \<^verbatim>\<open>return\<close> inside the loop, if there was one.
\<close>

fun transcribe_rows ::
  "world \<Rightarrow> string \<Rightarrow> int \<Rightarrow> chunk list \<Rightarrow> db \<Rightarrow> int \<Rightarrow> event list
     \<Rightarrow> db \<times> int \<times> event list \<times> int option" where
  "transcribe_rows w jid total_chunks [] conn done_chunks events = (conn, done_chunks, events, None)"
| "transcribe_rows w jid total_chunks (row # rows) conn done_chunks events =
     (if chunk_status row = ''done''
      then transcribe_rows w jid total_chunks rows conn done_chunks events
      else
        (let chunk_idx = idx row;
             chunk_start = chunk_start_sec row;
             attempts = attempt_count row + 1;
             hash = (if chunk_hash row = [] then file_hash w chunk_idx else chunk_hash row);
             stored = row\<lparr>chunk_hash := hash, attempt_count := attempts,
                          chunk_transcript_json := None, chunk_confidence := None,
                          chunk_updated_at := now_iso w\<rparr>;
             conn1 = upsert_chunk conn
                       (stored\<lparr>chunk_status := ''transcribing_openai'', engine := Some ''openai''\<rparr>);
             finish = (\<lambda>eng segments avg_conf conn2 events2.
                 (let globalized = globalize chunk_start segments;
                      conn3 = upsert_chunk conn2
                                (stored\<lparr>chunk_status := ''done'', engine := Some eng,
                                         chunk_transcript_json := Some globalized,
                                         chunk_confidence := avg_conf\<rparr>);
                      done1 = done_chunks + 1;
                      conn4 = update_job_status conn3 (now_iso w) jid ''transcribing_openai''
                                (Some done1) (Some total_chunks) None;
                      events3 = events2 @
                        [Progress (progress_payload ''transcribing_openai'' ''transcribe''
                           (10 + real_of_int done1 / real_of_int (max total_chunks 1) * 80)
                           done1 total_chunks)]
                  in transcribe_rows w jid total_chunks rows conn4 done1 events3))
         in case remote w chunk_idx of
              Inr (segments, avg_conf) \<Rightarrow> finish ''openai'' segments avg_conf conn1 events
            | Inl openai_exc \<Rightarrow>
                (let events1 = events @
                       [Progress (progress_payload ''transcribing_fallback'' ''transcribe''
                          (10 + real_of_int done_chunks / real_of_int (max total_chunks 1) * 70)
                          done_chunks total_chunks)]
                 in case fallback w chunk_idx of
                      FallbackOk segments coverage \<Rightarrow>
                        finish ''fallback'' segments (Some coverage) conn1 events1
                    | LowSpeakerConfidenceError conf_exc \<Rightarrow>
                        (let conn2 = upsert_chunk conn1
                                       (stored\<lparr>chunk_status := ''paused_retry_openai'',
                                                engine := Some ''fallback''\<rparr>);
                             conn3 = update_job_status conn2 (now_iso w) jid ''paused_retry_openai''
                                       (Some done_chunks) (Some total_chunks) (Some conf_exc)
                         in (conn3, done_chunks,
                             events1 @
                               [Paused (progress_payload ''paused_retry_openai'' ''transcribe''
                                  (10 + real_of_int done_chunks / real_of_int (max total_chunks 1) * 80)
                                  done_chunks total_chunks)],
                             Some 2))
                    | FallbackError fallback_exc \<Rightarrow>
                        (let message = ''OpenAI: '' @ openai_exc @ ''; Fallback: '' @ fallback_exc;
                             conn2 = update_job_status conn1 (now_iso w) jid ''failed''
                                       (Some done_chunks) (Some total_chunks) (Some message)
                         in (conn2, done_chunks,
                             events1 @
                               [Error (''Chunk '' @ show_int (chunk_idx + 1)
                                        @ '' fejlede i b'' @ [CHR 0xE5] @ ''de OpenAI og fallback. ''
                                        @ message)],
                             Some 1)))))"

text \<open>
  \<^verbatim>\<open>transcribe_job\<close>: the connection after the run, the events in the order printed, and
  the exit code (\<open>Inl\<close>: an exception left the function).  The flag \<^verbatim>\<open>resume\<close> only decides
  whether old job directories are deleted first, and is not an argument here.
\<close>

definition transcribe_job ::
  "db \<Rightarrow> world \<Rightarrow> string \<Rightarrow> string \<Rightarrow> int \<Rightarrow> int
     \<Rightarrow> db \<times> event list \<times> (error + int)" where
  "transcribe_job conn w source jid interviewer_cnt participant_cnt =
     (if \<not> source_exists w
      then (update_job_status conn (now_iso w) jid ''failed'' None None (Some ''Source fil mangler''),
            [Error (''Kildedata findes ikke: '' @ source)], Inr 1)
      else
        (let conn1 = update_job_status conn (now_iso w) jid ''preprocessing'' None None None;
             events1 = [Progress (progress_payload ''preprocessing'' ''preprocess'' 3 0 0)]
         in case preprocess_if_needed conn1 w jid of
              Inl e \<Rightarrow> (conn1, events1, Inl e)
            | Inr (conn2, duration, chunk_rows) \<Rightarrow>
                (let total_chunks = int (length chunk_rows);
                     done_chunks = int (length (filter (\<lambda>row. chunk_status row = ''done'') chunk_rows));
                     conn3 = update_job_status conn2 (now_iso w) jid ''transcribing_openai''
                               (Some done_chunks) (Some total_chunks) None
                 in case transcribe_rows w jid total_chunks chunk_rows conn3 done_chunks events1 of
                      (conn4, done1, events2, Some code) \<Rightarrow> (conn4, events2, Inr code)
                    | (conn4, done1, events2, None) \<Rightarrow>
                        (let conn5 = update_job_status conn4 (now_iso w) jid ''merging''
                                       (Some done1) (Some total_chunks) None;
                             events3 = events2 @
                               [Progress (progress_payload ''merging'' ''merge'' 94 done1 total_chunks)];
                             collected = concat (map (\<lambda>row.
                                 case chunk_transcript_json row of
                                   None \<Rightarrow> []
                                 | Some raw_segments \<Rightarrow> coerce_segments raw_segments)
                               (list_chunks conn5 jid));
                             labeled = merge_and_label collected interviewer_cnt participant_cnt;
                             conn6 = set_final_transcript conn5 (now_iso w) jid labeled ''ready'';
                             conn7 = update_job_status conn6 (now_iso w) jid ''ready''
                                       (Some total_chunks) (Some total_chunks) None
                         in case get_job conn7 jid of
                              None \<Rightarrow>
                                (conn7,
                                 events3 @ [Error (''Kunne ikke indl'' @ [CHR 0xE6] @ ''se slutresultat'')],
                                 Inr 1)
                            | Some j \<Rightarrow>
                                (conn7,
                                 events3 @ [Result (duration_sec j) (get_transcript conn7 jid)],
                                 Inr 0)))))"

text \<open>Progress percentages of one stage, in the order emitted.\<close>

definition stage_percents :: "string \<Rightarrow> event list \<Rightarrow> real list" where
  "stage_percents stg events =
     concat (map (\<lambda>e. case e of
                         Progress p \<Rightarrow> (if stage p = stg then [percent p] else [])
                       | _ \<Rightarrow> []) events)"

text \<open>The \<^verbatim>\<open>chunksDone\<close> values of the progress and paused events, in the order emitted.\<close>

definition events_chunks_done :: "event list \<Rightarrow> int list" where
  "events_chunks_done events =
     concat (map (\<lambda>e. case e of
                         Progress p \<Rightarrow> [chunksDone p]
                       | Paused p \<Rightarrow> [chunksDone p]
                       | _ \<Rightarrow> []) events)"

text \<open>
  A job of 300 seconds, freshly created: two chunks.  The remote engine answers for chunk
  0 and fails for chunk 1, where the fallback engine answers.
\<close>

definition example_world :: world where
  "example_world =
     \<lparr>source_exists = True, probed_duration = 300, file_hash = (\<lambda>i. ''00''),
      remote = (\<lambda>i. if i = 0
                      then Inr ([\<lparr>start_sec = 0, end_sec = 3, speaker = ''A'', seg_text = ''Hvem?'',
                                  confidence = None\<rparr>], None)
                      else Inl ''The request timed out.''),
      fallback = (\<lambda>i. FallbackOk
                         [\<lparr>start_sec = 1, end_sec = 2, speaker = ''SPEAKER_00'', seg_text = ''Bo'',
                           confidence = None\<rparr>,
                          \<lparr>start_sec = 3, end_sec = 4, speaker = ''SPEAKER_01'', seg_text = ''Ib'',
                           confidence = None\<rparr>] 1),
      now_iso = ''t1''\<rparr>"

definition queued_db :: db where
  "queued_db =
     \<lparr>jobs = [''j1'' \<mapsto> example_job\<lparr>status := ''queued'', error_message := None\<rparr>], chunks = []\<rparr>"

section \<open>Properties of the job store\<close>

lemma swap_segment_twice: "swap_segment (swap_segment u) = u"
  by (simp add: swap_segment_def)

lemma get_transcript_set_final:
  "get_transcript (set_final_transcript conn stamp jid t st) jid =
     (case jobs conn jid of None \<Rightarrow> [] | Some j \<Rightarrow> t)"
  by (simp add: get_transcript_def set_final_transcript_def split: option.splits)

text \<open>
  Claim C9.  \<^verbatim>\<open>toggle_swap_roles\<close> is an involution on the stored transcript: after two
  calls the transcript read back from the store is the one read before the first call,
  and it is also the list the second call returns, for every job with a stored transcript.
\<close>

theorem toggle_swap_roles_involution:
  assumes "jobs conn jid = Some j" and "transcript_json j = Some t"
  shows "get_transcript (fst (toggle_swap_roles (fst (toggle_swap_roles conn s1 jid)) s2 jid)) jid
           = get_transcript conn jid
       \<and> snd (toggle_swap_roles (fst (toggle_swap_roles conn s1 jid)) s2 jid) = t"
proof -
  have g0: "get_transcript conn jid = t"
    using assms by (simp add: get_transcript_def)
  let ?c1 = "fst (toggle_swap_roles conn s1 jid)"
  have g1: "get_transcript ?c1 jid = map swap_segment t"
    using assms g0 by (simp add: toggle_swap_roles_def Let_def get_transcript_set_final)
  have j1: "jobs ?c1 jid \<noteq> None"
    using assms by (simp add: toggle_swap_roles_def Let_def set_final_transcript_def)
  have twice: "map swap_segment (map swap_segment t) = t"
    by (simp add: swap_segment_twice o_def)
  have g2: "get_transcript (fst (toggle_swap_roles ?c1 s2 jid)) jid = t"
    using j1 g1 twice
    by (auto simp add: toggle_swap_roles_def Let_def get_transcript_set_final split: option.splits)
  have r2: "snd (toggle_swap_roles ?c1 s2 jid) = t"
    using g1 twice by (simp add: toggle_swap_roles_def Let_def)
  show ?thesis using g0 g2 r2 by simp
qed

theorem toggle_swap_roles_involution_witness:
  "get_transcript (fst (toggle_swap_roles (fst (toggle_swap_roles example_db ''t1'' ''j1'')) ''t2'' ''j1'')) ''j1''
     = example_transcript
   \<and> snd (toggle_swap_roles example_db ''t1'' ''j1'') \<noteq> example_transcript"
proof -
  have a: "jobs example_db ''j1'' = Some (example_job\<lparr>transcript_json := Some example_transcript\<rparr>)"
    by (simp add: example_db_def)
  have b: "transcript_json (example_job\<lparr>transcript_json := Some example_transcript\<rparr>)
             = Some example_transcript"
    by simp
  have c: "get_transcript example_db ''j1'' = example_transcript"
    by (simp add: get_transcript_def example_db_def)
  have d: "snd (toggle_swap_roles example_db ''t1'' ''j1'') \<noteq> example_transcript"
    by (simp add: toggle_swap_roles_def Let_def c example_transcript_def swap_segment_def)
  show ?thesis
    using toggle_swap_roles_involution [OF a b, of "''t1''" "''t2''"] c d by simp
qed

lemma set_final_transcript_row:
  "jobs conn jid = Some j \<Longrightarrow>
     jobs (set_final_transcript conn stamp jid t st) jid =
       Some (j\<lparr>transcript_json := Some t, status := st, updated_at := stamp, error_message := None\<rparr>)"
  by (simp add: set_final_transcript_def)

lemma update_job_status_keeps_error:
  "jobs conn jid = Some j \<Longrightarrow>
     \<exists>j'. jobs (update_job_status conn stamp jid st cd ct None) jid = Some j'
        \<and> status j' = st \<and> error_message j' = error_message j"
  by (simp add: update_job_status_def Let_def split: option.splits)

text \<open>
  Claim C4, as stated, fails: \<^verbatim>\<open>update_job_status\<close> is a store operation that moves a
  job into \<open>ready\<close> and writes \<^verbatim>\<open>error_message\<close> only when it is given one.  A failed
  job moved to \<open>ready\<close> by it keeps its message.
\<close>

theorem update_job_status_ready_keeps_error_message:
  "map_option status
       (jobs (update_job_status \<lparr>jobs = [''j1'' \<mapsto> example_job], chunks = []\<rparr>
                ''t1'' ''j1'' ''ready'' None None None) ''j1'') = Some ''ready''
   \<and> map_option error_message
       (jobs (update_job_status \<lparr>jobs = [''j1'' \<mapsto> example_job], chunks = []\<rparr>
                ''t1'' ''j1'' ''ready'' None None None) ''j1'') = Some (Some ''Source fil mangler'')
   \<and> status example_job = ''failed''"
  by (simp add: update_job_status_def Let_def example_job_def)

text \<open>
  Claim C4, amended.  Every \<^verbatim>\<open>set_final_transcript\<close> leaves the job's \<^verbatim>\<open>error_message\<close>
  \<^verbatim>\<open>NULL\<close>, whatever status it writes and whatever the message was; this is the operation
  by which the driver, \<^verbatim>\<open>toggle_swap_roles\<close> and the transcript update enter \<open>ready\<close>.
  The driver's following \<^verbatim>\<open>update_job_status(conn, job_id, "ready", ...)\<close> passes no message
  and leaves the column \<^verbatim>\<open>NULL\<close>.
\<close>

theorem ready_transition_clears_error_message:
  assumes "jobs conn jid = Some j"
  shows "(\<exists>j1. jobs (set_final_transcript conn s1 jid t ''ready'') jid = Some j1
            \<and> status j1 = ''ready'' \<and> error_message j1 = None)
       \<and> (\<exists>j2. jobs (update_job_status (set_final_transcript conn s1 jid t ''ready'')
                        s2 jid ''ready'' cd ct None) jid = Some j2
            \<and> status j2 = ''ready'' \<and> error_message j2 = None)
       \<and> (\<exists>j3. jobs (fst (toggle_swap_roles conn s1 jid)) jid = Some j3
            \<and> status j3 = ''ready'' \<and> error_message j3 = None)"
proof -
  let ?c1 = "set_final_transcript conn s1 jid t ''ready''"
  have r1: "jobs ?c1 jid =
      Some (j\<lparr>transcript_json := Some t, status := ''ready'', updated_at := s1, error_message := None\<rparr>)"
    using assms by (rule set_final_transcript_row)
  have p1: "\<exists>j1. jobs ?c1 jid = Some j1 \<and> status j1 = ''ready'' \<and> error_message j1 = None"
    using r1 by simp
  have p2: "\<exists>j2. jobs (update_job_status ?c1 s2 jid ''ready'' cd ct None) jid = Some j2
            \<and> status j2 = ''ready'' \<and> error_message j2 = None"
    using update_job_status_keeps_error [OF r1, of s2 "''ready''" cd ct] by simp
  have p3: "\<exists>j3. jobs (fst (toggle_swap_roles conn s1 jid)) jid = Some j3
            \<and> status j3 = ''ready'' \<and> error_message j3 = None"
    using assms by (simp add: toggle_swap_roles_def Let_def set_final_transcript_row)
  show ?thesis using p1 p2 p3 by blast
qed

theorem ready_transition_clears_error_message_witness:
  "map_option error_message
     (jobs (set_final_transcript \<lparr>jobs = [''j1'' \<mapsto> example_job], chunks = []\<rparr>
              ''t1'' ''j1'' example_transcript ''ready'') ''j1'') = Some None
   \<and> error_message example_job \<noteq> None"
proof -
  have a: "jobs \<lparr>jobs = [''j1'' \<mapsto> example_job], chunks = []\<rparr> ''j1'' = Some example_job"
    by simp
  have b: "error_message example_job \<noteq> None"
    by (simp add: example_job_def)
  from ready_transition_clears_error_message [OF a, of "''t1''" example_transcript]
  obtain j1 where
    "jobs (set_final_transcript \<lparr>jobs = [''j1'' \<mapsto> example_job], chunks = []\<rparr>
              ''t1'' ''j1'' example_transcript ''ready'') ''j1'' = Some j1"
    and "error_message j1 = None"
    by blast
  then show ?thesis using b by simp
qed

section \<open>Properties of rounding, the chunk planner and globalisation\<close>




lemma round_half_even_of_int [simp]: "round_half_even (of_int k) = k"
  by (simp add: round_half_even_def Let_def)



lemma py_round_exact: "py_round (of_int k / 10 ^ n) n = of_int k / 10 ^ n"
  by (simp add: py_round_def)






lemma create_chunks_degenerate_window:
  "create_chunks (2385004 / 10000) 240 (3 / 2) =
     Inr (2385004 / 10000,
          [\<lparr>plan_idx = 0, plan_start_sec = 0, plan_end_sec = 477 / 2\<rparr>,
           \<lparr>plan_idx = 1, plan_start_sec = 477 / 2, plan_end_sec = 477 / 2\<rparr>])"
  by code_simp






section \<open>Properties of the editor parser\<close>

lemma dropWhile_Cons_D: "dropWhile P xs = c # cs \<Longrightarrow> c \<in> set xs \<and> \<not> P c"
proof
  assume a: "dropWhile P xs = c # cs"
  have "c \<in> set (dropWhile P xs)" using a by simp
  then show "c \<in> set xs" by (rule set_dropWhileD)
  have "dropWhile P xs \<noteq> []" using a by simp
  then have "\<not> P (hd (dropWhile P xs))" by (rule hd_dropWhile)
  then show "\<not> P c" using a by simp
qed

lemma strip_eq_Nil_iff: "strip s = [] \<longleftrightarrow> (\<forall>x\<in>set s. isspace x)"
proof (cases "dropWhile isspace s")
  case Nil
  then have "\<forall>x\<in>set s. isspace x"
    by (simp add: dropWhile_eq_Nil_conv)
  moreover have "strip s = []"
    unfolding strip_def Nil by simp
  ultimately show ?thesis by simp
next
  case (Cons c cs)
  then have c: "c \<in> set s" "\<not> isspace c"
    using dropWhile_Cons_D [of isspace s c cs] by simp_all
  have "c \<in> set (rev (dropWhile isspace s))"
    using Cons by simp
  then have "\<not> (\<forall>x\<in>set (rev (dropWhile isspace s)). isspace x)"
    using c(2) by blast
  then have "dropWhile isspace (rev (dropWhile isspace s)) \<noteq> []"
    by (simp only: dropWhile_eq_Nil_conv not_False_eq_True)
  then have "strip s \<noteq> []"
    by (simp add: strip_def)
  then show ?thesis using c by blast
qed

lemma SPEAKER_PREFIX_not_blank:
  assumes "SPEAKER_PREFIX line = Some (g1, g2)"
  shows "strip line \<noteq> []"
proof -
  from assms obtain rest where d: "dropWhile isspace line = g1 # rest" and g: "g1 \<in> set ''IiDd''"
    by (auto simp add: SPEAKER_PREFIX_def split: list.splits if_splits)
  have "g1 \<in> set line" and "\<not> isspace g1"
    using dropWhile_Cons_D [OF d] by simp_all
  then show ?thesis
    by (auto simp add: strip_eq_Nil_iff)
qed

lemma parse_lines_wellformed:
  assumes "\<forall>raw_line\<in>set raw_lines.
             \<exists>g1 g2. SPEAKER_PREFIX (filter (\<lambda>c. c \<noteq> CHR 0x0D) raw_line) = Some (g1, g2)
                   \<and> strip g2 \<noteq> []"
  shows "parse_lines n raw_lines = Inr (map line_utterance raw_lines)"
  using assms
proof (induction raw_lines arbitrary: n)
  case Nil
  then show ?case by simp
next
  case (Cons raw_line rest)
  then obtain g1 g2 where m: "SPEAKER_PREFIX (filter (\<lambda>c. c \<noteq> CHR 0x0D) raw_line) = Some (g1, g2)"
    and body: "strip g2 \<noteq> []"
    by auto
  have nb: "strip (filter (\<lambda>c. c \<noteq> CHR 0x0D) raw_line) \<noteq> []"
    using m by (rule SPEAKER_PREFIX_not_blank)
  have rest: "parse_lines (n + 1) rest = Inr (map line_utterance rest)"
    using Cons by simp
  show ?case
    using m body nb rest by (simp add: Let_def line_utterance_def)
qed

lemma py_round_of_nat3: "py_round (real k * 3) 3 = real k * 3"
proof -
  have eq: "real k * 3 = of_int (int k * 3000) / 10 ^ 3" by simp
  show ?thesis unfolding eq by (rule py_round_exact)
qed

lemma py_round_of_nat3_plus1: "py_round (real k * 3 + 1) 3 = real k * 3 + 1"
proof -
  have eq: "real k * 3 + 1 = of_int (int k * 3000 + 1000) / 10 ^ 3" by simp
  show ?thesis unfolding eq by (rule py_round_exact)
qed

lemma convert_utterances_nth:
  assumes "k < length utterances"
  shows "convert_utterances confs utterances ! k =
           \<lparr>startSec = real k * 3, endSec = real k * 3 + 1,
            uspeaker = fst (utterances ! k), utext = snd (utterances ! k),
            uconfidence = (if k < length confs then confs ! k else None)\<rparr>"
  using assms
  by (simp add: convert_utterances_def nth_enumerate_eq Let_def SEGMENT_START_STEP_def
      SEGMENT_DURATION_def py_round_of_nat3 py_round_of_nat3_plus1 split: prod.splits)

text \<open>
  Claim C8, as stated, fails: line numbers count from 1 and the start times from 0, so
  the utterance of line 1 starts at 0, not at \<open>1 * 3.0\<close>.
\<close>

theorem parse_editor_text_first_line_starts_at_zero:
  "parse_editor_text ''I: Hej'' [] =
     Inr [\<lparr>startSec = 0, endSec = 1, uspeaker = ''I'', utext = ''Hej'', uconfidence = None\<rparr>]"
  by code_simp

lemma parse_editor_text_empty:
  "parse_editor_text [] fallback_transcript =
     Inl (ValueError ''Ingen gyldige ytringer fundet. Brug formatet 'I: ...' eller 'D: ...'.'')"
  by (simp add: parse_editor_text_def)

text \<open>
  Claim C8, amended.  For every input text with at least one line, every line of which
  matches the speaker prefix with a body that is not empty after trimming,
  \<^verbatim>\<open>parse_editor_text\<close> returns one utterance per line, in order; the utterance of line
  \<open>i\<close> (counted from 1) has \<open>startSec = (i - 1) * 3.0\<close> and \<open>endSec = startSec + 1.0\<close>, the
  upper-cased prefix letter as speaker, the trimmed body as text, and the confidence of
  \<open>fallback_transcript[i - 1]\<close> when that entry exists (none otherwise).  Below, \<open>k = i - 1\<close>.
\<close>

theorem parse_editor_text_wellformed:
  assumes "splitlines input_text \<noteq> []"
    and "\<forall>raw_line\<in>set (splitlines input_text).
           \<exists>g1 g2. SPEAKER_PREFIX (filter (\<lambda>c. c \<noteq> CHR 0x0D) raw_line) = Some (g1, g2)
                 \<and> strip g2 \<noteq> []"
  shows "\<exists>converted.
           parse_editor_text input_text fallback_transcript = Inr converted
         \<and> length converted = length (splitlines input_text)
         \<and> (\<forall>k<length converted.
               startSec (converted ! k) = real k * 3
             \<and> endSec (converted ! k) = startSec (converted ! k) + 1
             \<and> (\<exists>g1 g2. SPEAKER_PREFIX (filter (\<lambda>c. c \<noteq> CHR 0x0D) (splitlines input_text ! k))
                           = Some (g1, g2)
                       \<and> uspeaker (converted ! k) = [upper_char g1]
                       \<and> utext (converted ! k) = strip g2)
             \<and> uconfidence (converted ! k)
                 = (if k < length fallback_transcript
                    then uconfidence (fallback_transcript ! k) else None))"
proof -
  let ?lines = "splitlines input_text"
  let ?us = "map line_utterance ?lines"
  let ?conv = "convert_utterances (map uconfidence fallback_transcript) ?us"
  have pl: "parse_lines 1 ?lines = Inr ?us"
    using assms(2) by (rule parse_lines_wellformed)
  have res: "parse_editor_text input_text fallback_transcript = Inr ?conv"
    using pl assms(1) by (simp add: parse_editor_text_def)
  have len: "length ?conv = length ?lines"
    by (simp add: convert_utterances_def)
  have each: "\<forall>k<length ?conv.
               startSec (?conv ! k) = real k * 3
             \<and> endSec (?conv ! k) = startSec (?conv ! k) + 1
             \<and> (\<exists>g1 g2. SPEAKER_PREFIX (filter (\<lambda>c. c \<noteq> CHR 0x0D) (?lines ! k)) = Some (g1, g2)
                       \<and> uspeaker (?conv ! k) = [upper_char g1]
                       \<and> utext (?conv ! k) = strip g2)
             \<and> uconfidence (?conv ! k)
                 = (if k < length fallback_transcript
                    then uconfidence (fallback_transcript ! k) else None)"
  proof (intro allI impI)
    fix k assume "k < length ?conv"
    then have k: "k < length ?lines" using len by simp
    then have "?lines ! k \<in> set ?lines" by simp
    then obtain g1 g2 where
      m: "SPEAKER_PREFIX (filter (\<lambda>c. c \<noteq> CHR 0x0D) (?lines ! k)) = Some (g1, g2)"
      using assms(2) by blast
    have lu: "?us ! k = ([upper_char g1], strip g2)"
      using k m by (simp add: line_utterance_def)
    have nth: "?conv ! k =
           \<lparr>startSec = real k * 3, endSec = real k * 3 + 1,
            uspeaker = fst (?us ! k), utext = snd (?us ! k),
            uconfidence = (if k < length (map uconfidence fallback_transcript)
                           then map uconfidence fallback_transcript ! k else None)\<rparr>"
      using k by (intro convert_utterances_nth) simp
    show "startSec (?conv ! k) = real k * 3
             \<and> endSec (?conv ! k) = startSec (?conv ! k) + 1
             \<and> (\<exists>g1 g2. SPEAKER_PREFIX (filter (\<lambda>c. c \<noteq> CHR 0x0D) (?lines ! k)) = Some (g1, g2)
                       \<and> uspeaker (?conv ! k) = [upper_char g1]
                       \<and> utext (?conv ! k) = strip g2)
             \<and> uconfidence (?conv ! k)
                 = (if k < length fallback_transcript
                    then uconfidence (fallback_transcript ! k) else None)"
      using nth lu m by simp
  qed
  show ?thesis using res len each by blast
qed

theorem parse_editor_text_wellformed_witness:
  "\<exists>converted.
      parse_editor_text (''i : Hej  '' @ [CHR 0x0A] @ ''  D:ja ja'') example_transcript = Inr converted
    \<and> map startSec converted = [0, 3]
    \<and> map uspeaker converted = [''I'', ''D'']
    \<and> map uconfidence converted = [None, Some (9 / 10)]"
proof -
  let ?t = "''i : Hej  '' @ [CHR 0x0A] @ ''  D:ja ja''"
  have sl: "splitlines ?t = [''i : Hej  '', ''  D:ja ja'']"
    by code_simp
  have a: "splitlines ?t \<noteq> []"
    using sl by simp
  have m1: "SPEAKER_PREFIX (filter (\<lambda>c. c \<noteq> CHR 0x0D) ''i : Hej  '') = Some (CHR ''i'', ''Hej  '')"
    by code_simp
  have m2: "SPEAKER_PREFIX (filter (\<lambda>c. c \<noteq> CHR 0x0D) ''  D:ja ja'') = Some (CHR ''D'', ''ja ja'')"
    by code_simp
  have s1: "strip ''Hej  '' \<noteq> []" by code_simp
  have s2: "strip ''ja ja'' \<noteq> []" by code_simp
  have b: "\<forall>raw_line\<in>set (splitlines ?t).
           \<exists>g1 g2. SPEAKER_PREFIX (filter (\<lambda>c. c \<noteq> CHR 0x0D) raw_line) = Some (g1, g2)
                 \<and> strip g2 \<noteq> []"
    unfolding sl using m1 m2 s1 s2 by simp
  have e: "parse_editor_text ?t example_transcript =
      Inr [\<lparr>startSec = 0, endSec = 1, uspeaker = ''I'', utext = ''Hej'', uconfidence = None\<rparr>,
           \<lparr>startSec = 3, endSec = 4, uspeaker = ''D'', utext = ''ja ja'', uconfidence = Some (9 / 10)\<rparr>]"
    by code_simp
  from parse_editor_text_wellformed [OF a b, of example_transcript]
  obtain converted where "parse_editor_text ?t example_transcript = Inr converted"
    by blast
  then show ?thesis using e by simp
qed

section \<open>Properties of the retry loop\<close>

lemma retry_loop_all_fail:
  assumes "\<forall>k. attempt_result k = Inl (msg k)" and "lo \<le> max_retries"
  shows "retry_loop attempt_result max_retries [lo..max_retries] last_error
           = Inl (Some (msg max_retries))"
  using assms(2)
proof (induction "nat (max_retries - lo)" arbitrary: lo last_error)
  case 0
  then have "lo = max_retries" by simp
  then show ?case using assms(1) by (simp add: upto.simps)
next
  case (Suc n)
  then have lt: "lo < max_retries" by linarith
  then have u: "[lo..max_retries] = lo # [lo + 1..max_retries]"
    by (simp add: upto.simps)
  have "n = nat (max_retries - (lo + 1))" using Suc(2) by linarith
  then have "retry_loop attempt_result max_retries [lo + 1..max_retries] (Some (msg lo))
           = Inl (Some (msg max_retries))"
    using Suc(1) lt by simp
  then show ?case using u lt assms(1) by simp
qed

text \<open>
  What the code does when every attempt raises: it fails with the message of
  \<open>retry_message\<close>, which ends in the text of the last error.
\<close>

lemma transcribe_chunk_openai_exhausted:
  assumes "\<forall>k. attempt_result k = Inl (msg k)" and "1 \<le> max_retries" and "strip key \<noteq> []"
  shows "transcribe_chunk_openai True key attempt_result max_retries
           = Inl (RuntimeError (retry_message max_retries (Some (msg max_retries))))"
  using retry_loop_all_fail [OF assms(1) assms(2), of None] assms(3)
  by (simp add: transcribe_chunk_openai_def)

text \<open>
  Claim C7 at the input of the repository's own test
  (\<^verbatim>\<open>test_openai_engine_raises_after_retry_exhaustion\<close>): two attempts, both raising
  \<^verbatim>\<open>The request timed out.\<close>  The call fails after the second attempt and the message holds
  the lower-case text \<^verbatim>\<open>timed out\<close>, but it does not hold \<^verbatim>\<open>efter 2 fors\<close>, U+00F8, \<^verbatim>\<open>g\<close>:
  where the claim and the test have the one letter U+00F8 the source has U+00C3 U+00B8.
\<close>

theorem retry_exhaustion_message_mojibake:
  "transcribe_chunk_openai True ''test-key'' (\<lambda>k. Inl ''The request timed out.'') 2
     = Inl (RuntimeError (''OpenAI transskription fejlede efter 2 fors'' @ [CHR 0xC3, CHR 0xB8]
                            @ ''g: The request timed out.''))
   \<and> py_in ''timed out''
        (lower (''OpenAI transskription fejlede efter 2 fors'' @ [CHR 0xC3, CHR 0xB8]
                  @ ''g: The request timed out.''))
   \<and> \<not> py_in (''efter 2 fors'' @ [CHR 0xF8] @ ''g'')
        (''OpenAI transskription fejlede efter 2 fors'' @ [CHR 0xC3, CHR 0xB8]
           @ ''g: The request timed out.'')"
  by code_simp

section \<open>Properties of the post-processor\<close>

lemma map_to_interviewer_participant_labels:
  "u \<in> set (map_to_interviewer_participant segments ic pc)
     \<Longrightarrow> uspeaker u = ''I'' \<or> uspeaker u = ''D''"
  by (auto simp add: map_to_interviewer_participant_def Let_def split: if_splits)

text \<open>
  Claim C3.  Every utterance in the output of \<^verbatim>\<open>merge_and_label\<close> has speaker \<open>I\<close> or \<open>D\<close>,
  for every segment list and every pair of expected counts.
\<close>

theorem merge_and_label_speaker_closed:
  "\<forall>u\<in>set (merge_and_label segments interviewer_cnt participant_cnt).
      uspeaker u = ''I'' \<or> uspeaker u = ''D''"
  by (auto simp add: merge_and_label_def dest: map_to_interviewer_participant_labels)

theorem merge_and_label_speaker_closed_witness:
  "list_all (\<lambda>u. uspeaker u = ''I'' \<or> uspeaker u = ''D'') (merge_and_label example_segments 1 2)
   \<and> map uspeaker (merge_and_label example_segments 1 2) = [''I'', ''D'', ''D'']"
proof -
  have a: "map uspeaker (merge_and_label example_segments 1 2) = [''I'', ''D'', ''D'']"
    by code_simp
  show ?thesis
    using merge_and_label_speaker_closed [of example_segments 1 2] a
    by (simp add: list_all_iff)
qed


subsection \<open>Interviewer inference\<close>

lemma collect_stats_keys:
  "map fst (collect_stats st seg) =
     (if raw_speaker_id seg \<in> set (map fst st) then map fst st
      else map fst st @ [raw_speaker_id seg])"
proof -
  have keep: "\<And>f xs. map fst (map (\<lambda>(k, stats). if k = raw_speaker_id seg then (k, f stats) else (k, stats)) xs)
                  = map fst (xs :: (string \<times> SpeakerStats) list)"
    by (induct_tac xs) auto
  have none: "map_of st (raw_speaker_id seg) = None \<longleftrightarrow> raw_speaker_id seg \<notin> set (map fst st)"
    by (simp add: map_of_eq_None_iff)
  show ?thesis
    unfolding collect_stats_def Let_def keep using none by simp
qed

lemma foldl_collect_stats_keys:
  "distinct (map fst st) \<Longrightarrow>
     distinct (map fst (foldl collect_stats st segs))
   \<and> set (map fst (foldl collect_stats st segs)) = set (map fst st) \<union> raw_speaker_id ` set segs"
proof (induction segs arbitrary: st)
  case Nil
  then show ?case by simp
next
  case (Cons seg segs)
  have d: "distinct (map fst (collect_stats st seg))"
    using Cons.prems by (simp add: collect_stats_keys)
  have s: "set (map fst (collect_stats st seg)) = insert (raw_speaker_id seg) (set (map fst st))"
    by (auto simp add: collect_stats_keys)
  show ?case
    using Cons.IH [OF d] s by auto
qed

lemma expected_interviewer_slots_bounds:
  assumes "2 \<le> n"
  shows "1 \<le> expected_interviewer_slots n ic pc \<and> expected_interviewer_slots n ic pc \<le> n - 1"
  using assms by (simp add: expected_interviewer_slots_def Let_def)

lemma distinct_nth_notin_take:
  assumes "distinct xs" and "k < length xs"
  shows "xs ! k \<notin> set (take k xs)"
proof
  assume "xs ! k \<in> set (take k xs)"
  then obtain i where i: "i < length (take k xs)" and e: "take k xs ! i = xs ! k"
    by (auto simp add: in_set_conv_nth)
  then have "i < k" and "xs ! i = xs ! k" by simp_all
  then show False
    using assms by (simp add: nth_eq_iff_index_eq)
qed

lemma map_fst_scored:
  "map fst (map (\<lambda>(speaker_id, stats). (speaker_id, g stats, h stats)) xs) = map fst xs"
  by (induction xs) auto

lemma sort_key_names:
  assumes "distinct (map fst xs)"
  shows "distinct (map fst (sort_key f xs))"
    and "set (map fst (sort_key f xs)) = set (map fst xs)"
    and "length (map fst (sort_key f xs)) = length xs"
proof -
  have ms: "mset (map fst (sort_key f xs)) = mset (map fst xs)"
    by simp
  show "distinct (map fst (sort_key f xs))"
    using mset_eq_imp_distinct_iff [OF ms] assms by blast
  show "set (map fst (sort_key f xs)) = set (map fst xs)"
    by (rule mset_eq_setD [OF ms])
  show "length (map fst (sort_key f xs)) = length xs"
    by simp
qed

lemma take_proper:
  assumes "distinct names" and "1 \<le> k" and "k < length names"
  shows "take k names \<noteq> []"
    and "hd (take k names) \<in> set names"
    and "names ! k \<in> set names"
    and "names ! k \<notin> set (take k names)"
proof -
  show ne: "take k names \<noteq> []"
    using assms(2,3) by (cases names) auto
  have "hd (take k names) \<in> set (take k names)"
    using ne by (rule hd_in_set)
  then show "hd (take k names) \<in> set names"
    by (rule in_set_takeD)
  show "names ! k \<in> set names"
    using assms(3) by (rule nth_mem)
  show "names ! k \<notin> set (take k names)"
    using assms(1,3) by (rule distinct_nth_notin_take)
qed

lemma infer_interviewer_speakers_proper:
  assumes two: "s1 \<in> set ordered" "s2 \<in> set ordered" "raw_speaker_id s1 \<noteq> raw_speaker_id s2"
  shows "\<exists>a\<in>set ordered. \<exists>b\<in>set ordered.
           raw_speaker_id a \<in> set (infer_interviewer_speakers ordered ic pc)
         \<and> raw_speaker_id b \<notin> set (infer_interviewer_speakers ordered ic pc)"
proof -
  define stats where "stats = foldl collect_stats [] ordered"
  define keys where "keys = map fst stats"
  have keys: "distinct keys" "set keys = raw_speaker_id ` set ordered"
    using foldl_collect_stats_keys [of "[]" ordered] by (simp_all add: keys_def stats_def)
  have in1: "raw_speaker_id s1 \<in> set keys" and in2: "raw_speaker_id s2 \<in> set keys"
    using keys(2) two by auto
  have "card {raw_speaker_id s1, raw_speaker_id s2} \<le> card (set keys)"
    using in1 in2 by (intro card_mono) auto
  then have "2 \<le> card (set keys)"
    using two(3) by simp
  then have n2: "2 \<le> length stats"
    using keys(1) distinct_card [of keys] by (simp add: keys_def)
  define slots where "slots = expected_interviewer_slots (int (length stats)) ic pc"
  define scored where
    "scored = map (\<lambda>(speaker_id, stats). (speaker_id, speaker_score stats, first_start stats)) stats"
  define ranked where
    "ranked = sort_key (\<lambda>(speaker_id, score, start). (- score, start)) scored"
  define names where "names = map fst ranked"
  have sl: "1 \<le> slots" "slots \<le> int (length stats) - 1"
    using expected_interviewer_slots_bounds [of "int (length stats)" ic pc] n2
    by (simp_all add: slots_def)
  have fst_scored: "map fst scored = keys"
    unfolding scored_def keys_def by (rule map_fst_scored)
  have dsc: "distinct (map fst scored)"
    using fst_scored keys(1) by simp
  have names1: "distinct names"
    unfolding names_def ranked_def by (rule sort_key_names(1) [OF dsc])
  have names2: "set names = set keys"
    unfolding names_def ranked_def by (simp only: sort_key_names(2) [OF dsc] fst_scored)
  have "length scored = length stats"
    by (simp add: scored_def)
  then have names3: "length names = length stats"
    unfolding names_def ranked_def by (simp only: sort_key_names(3) [OF dsc])
  note names = names1 names2 names3
  have k: "1 \<le> nat slots" "nat slots < length names"
    using sl names(3) by linarith+
  have picked_take: "map fst (take (nat slots) ranked) = take (nat slots) names"
    by (simp add: take_map names_def)
  note tp = take_proper [OF names(1) k]
  have res: "infer_interviewer_speakers ordered ic pc = take (nat slots) names"
  proof -
    have a: "ordered \<noteq> []" using two(1) by auto
    have b: "\<not> length (foldl collect_stats [] ordered) \<le> 1"
      using n2 by (simp add: stats_def)
    have c: "map fst (take (nat (expected_interviewer_slots
                (int (length (foldl collect_stats [] ordered))) ic pc))
              (sort_key (\<lambda>(speaker_id, score, start). (- score, start))
                (map (\<lambda>(speaker_id, stats). (speaker_id, speaker_score stats, first_start stats))
                   (foldl collect_stats [] ordered)))) = take (nat slots) names"
      using picked_take by (simp only: slots_def ranked_def scored_def stats_def)
    show ?thesis
      unfolding infer_interviewer_speakers_def Let_def c
      using a b tp(1) by simp
  qed
  obtain a where a: "a \<in> set ordered" "raw_speaker_id a = hd (take (nat slots) names)"
    using tp(2) names(2) keys(2) by auto
  obtain b where b: "b \<in> set ordered" "raw_speaker_id b = names ! nat slots"
    using tp(3) names(2) keys(2) by auto
  have ia: "raw_speaker_id a \<in> set (infer_interviewer_speakers ordered ic pc)"
    unfolding res a(2) using tp(1) by (rule hd_in_set)
  have ib: "raw_speaker_id b \<notin> set (infer_interviewer_speakers ordered ic pc)"
    unfolding res b(2) by (rule tp(4))
  show ?thesis
    using a(1) b(1) ia ib by blast
qed

text \<open>
  Claim C10.  When two segments of the input have different raw speaker ids (a missing
  id counting as \<open>speaker_0\<close>), the output of \<^verbatim>\<open>map_to_interviewer_participant\<close> has an
  utterance labelled \<open>I\<close> and one labelled \<open>D\<close>, and the number of interviewer slots for
  \<open>n \<ge> 2\<close> distinct speakers lies between 1 and \<open>n - 1\<close>.
\<close>

theorem two_speakers_give_both_labels:
  assumes "s1 \<in> set segments" and "s2 \<in> set segments"
    and "raw_speaker_id s1 \<noteq> raw_speaker_id s2"
  shows "(\<exists>u\<in>set (map_to_interviewer_participant segments ic pc). uspeaker u = ''I'')
       \<and> (\<exists>u\<in>set (map_to_interviewer_participant segments ic pc). uspeaker u = ''D'')
       \<and> 1 \<le> expected_interviewer_slots (int (card (raw_speaker_id ` set segments))) ic pc
       \<and> expected_interviewer_slots (int (card (raw_speaker_id ` set segments))) ic pc
           \<le> int (card (raw_speaker_id ` set segments)) - 1"
proof -
  let ?ordered = "sort_segments segments"
  have so: "set ?ordered = set segments"
    by (simp add: sort_segments_def)
  from infer_interviewer_speakers_proper [of s1 ?ordered s2 ic pc] assms so
  obtain a b where a: "a \<in> set ?ordered"
      "raw_speaker_id a \<in> set (infer_interviewer_speakers ?ordered ic pc)"
    and b: "b \<in> set ?ordered"
      "raw_speaker_id b \<notin> set (infer_interviewer_speakers ?ordered ic pc)"
    by auto
  let ?label = "\<lambda>segment.
                \<lparr>startSec = py_round (start_sec segment) 3,
                 endSec = py_round (end_sec segment) 3,
                 uspeaker = (if raw_speaker_id segment
                               \<in> set (infer_interviewer_speakers ?ordered ic pc) then ''I'' else ''D''),
                 utext = strip (seg_text segment),
                 uconfidence = map_option (\<lambda>c. py_round c 4) (confidence segment)\<rparr>"
  have out: "map_to_interviewer_participant segments ic pc = map ?label ?ordered"
    by (simp add: map_to_interviewer_participant_def Let_def)
  have ia: "?label a \<in> set (map_to_interviewer_participant segments ic pc)"
    unfolding out set_map using a(1) by (rule imageI)
  have ib: "?label b \<in> set (map_to_interviewer_participant segments ic pc)"
    unfolding out set_map using b(1) by (rule imageI)
  have la: "uspeaker (?label a) = ''I''" using a(2) by simp
  have lb: "uspeaker (?label b) = ''D''" using b(2) by simp
  have "card {raw_speaker_id s1, raw_speaker_id s2} \<le> card (raw_speaker_id ` set segments)"
    using assms by (intro card_mono) auto
  then have "2 \<le> int (card (raw_speaker_id ` set segments))"
    using assms(3) by simp
  then have sl: "1 \<le> expected_interviewer_slots (int (card (raw_speaker_id ` set segments))) ic pc
       \<and> expected_interviewer_slots (int (card (raw_speaker_id ` set segments))) ic pc
           \<le> int (card (raw_speaker_id ` set segments)) - 1"
    by (rule expected_interviewer_slots_bounds)
  show ?thesis
    using ia la ib lb sl by blast
qed

theorem two_speakers_give_both_labels_witness:
  "(\<exists>u\<in>set (map_to_interviewer_participant example_segments 1 1). uspeaker u = ''I'')
   \<and> (\<exists>u\<in>set (map_to_interviewer_participant example_segments 1 1). uspeaker u = ''D'')
   \<and> length example_segments = 3"
proof -
  let ?a = "\<lparr>start_sec = 0, end_sec = 3, speaker = ''A'', seg_text = ''Hvem?'', confidence = None\<rparr>"
  let ?b = "\<lparr>start_sec = 31 / 10, end_sec = 7, speaker = ''B'', seg_text = ''Bo'', confidence = None\<rparr>"
  have a: "?a \<in> set example_segments" and b: "?b \<in> set example_segments"
    by (simp_all add: example_segments_def)
  have ne: "raw_speaker_id ?a \<noteq> raw_speaker_id ?b"
    by (simp add: raw_speaker_id_def)
  show ?thesis
    using two_speakers_give_both_labels [OF a b ne, of 1 1]
    by (simp add: example_segments_def)
qed

subsection \<open>Applying the pipeline to its own output\<close>

lemma length_dedupe_step: "length (dedupe_step merged segment) \<le> Suc (length merged)"
  by (simp add: dedupe_step_def Let_def)

lemma length_foldl_dedupe_step:
  "length (foldl dedupe_step merged segments) \<le> length merged + length segments"
proof (induction segments arbitrary: merged)
  case Nil
  then show ?case by simp
next
  case (Cons segment segments)
  have "length (foldl dedupe_step (dedupe_step merged segment) segments)
          \<le> length (dedupe_step merged segment) + length segments"
    by (rule Cons.IH)
  also have "\<dots> \<le> Suc (length merged) + length segments"
    using length_dedupe_step [of merged segment] by simp
  finally show ?case by simp
qed

lemma length_dedupe_segments: "length (dedupe_segments segments) \<le> length segments"
  using length_foldl_dedupe_step [of "[]" "sort_segments segments"]
  by (simp add: dedupe_segments_def sort_segments_def)

lemma length_map_filter: "length (List.map_filter f xs) \<le> length xs"
  by (simp add: List.map_filter_def)


lemma length_remove_interruptions: "length (remove_interruptions i compacted) \<le> length compacted"
proof (induction i compacted rule: remove_interruptions.induct)
  case (1 i compacted)
  show ?case
  proof (cases "i + 1 < length compacted")
    case False
    then have "remove_interruptions i compacted = compacted"
      by (subst remove_interruptions.simps) simp
    then show ?thesis by simp
  next
    case True
    let ?pop = "take i compacted @ drop (Suc i) compacted"
    show ?thesis
    proof (cases "is_interruption (compacted ! (i - 1)) (compacted ! i) (compacted ! (i + 1))")
      case c: True
      have eq: "remove_interruptions i compacted = remove_interruptions i ?pop"
        by (subst remove_interruptions.simps) (simp only: True c if_True)
      have "length (remove_interruptions i ?pop) \<le> length ?pop"
        using True c by (rule "1.IH"(1))
      also have "\<dots> \<le> length compacted"
        by simp
      finally show ?thesis using eq by simp
    next
      case c: False
      have eq: "remove_interruptions i compacted = remove_interruptions (i + 1) compacted"
        by (subst remove_interruptions.simps) (simp only: True c if_True if_False)
      have "length (remove_interruptions (i + 1) compacted) \<le> length compacted"
        using True c by (rule "1.IH"(2))
      then show ?thesis using eq by simp
    qed
  qed
qed

lemma length_merge_runs_step: "length (merge_runs_step merged_runs segment) \<le> Suc (length merged_runs)"
  by (simp add: merge_runs_step_def Let_def)

lemma length_foldl_merge_runs_step:
  "length (foldl merge_runs_step merged_runs segments) \<le> length merged_runs + length segments"
proof (induction segments arbitrary: merged_runs)
  case Nil
  then show ?case by simp
next
  case (Cons segment segments)
  have "length (foldl merge_runs_step (merge_runs_step merged_runs segment) segments)
          \<le> length (merge_runs_step merged_runs segment) + length segments"
    by (rule Cons.IH)
  also have "\<dots> \<le> Suc (length merged_runs) + length segments"
    using length_merge_runs_step [of merged_runs segment] by simp
  finally show ?case by simp
qed

lemma length_filter_style_noise: "length (filter_style_noise segments) \<le> length segments"
proof -
  let ?filtered = "List.map_filter clean_segment (sort_segments segments)"
  have f: "length ?filtered \<le> length segments"
    using length_map_filter [of clean_segment "sort_segments segments"]
    by (simp add: sort_segments_def)
  have "length (foldl merge_runs_step [] (remove_interruptions 1 ?filtered))
          \<le> length (remove_interruptions 1 ?filtered)"
    using length_foldl_merge_runs_step [of "[]"] by simp
  also have "\<dots> \<le> length ?filtered"
    by (rule length_remove_interruptions)
  finally have "length (foldl merge_runs_step [] (remove_interruptions 1 ?filtered))
          \<le> length segments"
    using f by simp
  then show ?thesis
    using f by (simp add: filter_style_noise_def Let_def)
qed

lemma length_map_to_interviewer_participant:
  "length (map_to_interviewer_participant segments ic pc) = length segments"
  by (simp add: map_to_interviewer_participant_def Let_def sort_segments_def)

lemma length_merge_and_label: "length (merge_and_label segments ic pc) \<le> length segments"
proof -
  have "length (filter_style_noise (dedupe_segments segments)) \<le> length (dedupe_segments segments)"
    by (rule length_filter_style_noise)
  also have "\<dots> \<le> length segments"
    by (rule length_dedupe_segments)
  finally show ?thesis
    by (simp add: merge_and_label_def length_map_to_interviewer_participant)
qed

lemma length_coerce_segments: "length (coerce_segments raw_segments) \<le> length raw_segments"
  by (simp add: coerce_segments_def length_map_filter)


lemma example_first_pass:
  "merge_and_label example_segments 1 2 =
     [\<lparr>startSec = 0, endSec = 3, uspeaker = ''I'', utext = ''Hvem?'', uconfidence = None\<rparr>,
      \<lparr>startSec = 31 / 10, endSec = 7, uspeaker = ''D'', utext = ''Bo'', uconfidence = None\<rparr>,
      \<lparr>startSec = 71 / 10, endSec = 9, uspeaker = ''D'', utext = ''Ib'', uconfidence = None\<rparr>]"
  by code_simp

lemma example_second_pass:
  "merge_and_label (coerce_segments
     [\<lparr>startSec = 0, endSec = 3, uspeaker = ''I'', utext = ''Hvem?'', uconfidence = None\<rparr>,
      \<lparr>startSec = 31 / 10, endSec = 7, uspeaker = ''D'', utext = ''Bo'', uconfidence = None\<rparr>,
      \<lparr>startSec = 71 / 10, endSec = 9, uspeaker = ''D'', utext = ''Ib'', uconfidence = None\<rparr>]) 1 2 =
     [\<lparr>startSec = 0, endSec = 3, uspeaker = ''I'', utext = ''Hvem?'', uconfidence = None\<rparr>,
      \<lparr>startSec = 31 / 10, endSec = 9, uspeaker = ''D'', utext = ''Bo Ib'', uconfidence = None\<rparr>]"
  by code_simp

text \<open>
  Claim C5, as stated, fails.  The pipeline is applied to its own output through
  \<^verbatim>\<open>_coerce_segments\<close>, the way the driver turns stored utterances back into segments.  With
  three raw speakers A, B, C and one expected interviewer among three, the first pass
  labels A as \<open>I\<close> and B, C as \<open>D\<close> and keeps three utterances; in the second pass B's and
  C's utterances have the same speaker \<open>D\<close> and lie 0.1 s apart, so the run merge joins
  them: two utterances.
\<close>

theorem merge_and_label_not_idempotent:
  "merge_and_label (coerce_segments (merge_and_label example_segments 1 2)) 1 2 =
     [\<lparr>startSec = 0, endSec = 3, uspeaker = ''I'', utext = ''Hvem?'', uconfidence = None\<rparr>,
      \<lparr>startSec = 31 / 10, endSec = 9, uspeaker = ''D'', utext = ''Bo Ib'', uconfidence = None\<rparr>]
   \<and> merge_and_label example_segments 1 2 =
     [\<lparr>startSec = 0, endSec = 3, uspeaker = ''I'', utext = ''Hvem?'', uconfidence = None\<rparr>,
      \<lparr>startSec = 31 / 10, endSec = 7, uspeaker = ''D'', utext = ''Bo'', uconfidence = None\<rparr>,
      \<lparr>startSec = 71 / 10, endSec = 9, uspeaker = ''D'', utext = ''Ib'', uconfidence = None\<rparr>]"
  by (simp only: example_first_pass example_second_pass)

text \<open>
  Claim C5, amended.  Applying the pipeline to its own output need not give the same
  result, but it only drops or merges: the second result has at most as many utterances
  as the first, and each of its utterances is again labelled \<open>I\<close> or \<open>D\<close>.
\<close>

theorem merge_and_label_twice_shrinks:
  "length (merge_and_label (coerce_segments (merge_and_label segments ic pc)) ic pc)
     \<le> length (merge_and_label segments ic pc)
   \<and> (\<forall>u\<in>set (merge_and_label (coerce_segments (merge_and_label segments ic pc)) ic pc).
         uspeaker u = ''I'' \<or> uspeaker u = ''D'')"
proof
  have "length (merge_and_label (coerce_segments (merge_and_label segments ic pc)) ic pc)
          \<le> length (coerce_segments (merge_and_label segments ic pc))"
    by (rule length_merge_and_label)
  also have "\<dots> \<le> length (merge_and_label segments ic pc)"
    by (rule length_coerce_segments)
  finally show "length (merge_and_label (coerce_segments (merge_and_label segments ic pc)) ic pc)
     \<le> length (merge_and_label segments ic pc)" .
  show "\<forall>u\<in>set (merge_and_label (coerce_segments (merge_and_label segments ic pc)) ic pc).
         uspeaker u = ''I'' \<or> uspeaker u = ''D''"
    by (auto simp add: merge_and_label_def dest: map_to_interviewer_participant_labels)
qed

theorem merge_and_label_twice_shrinks_witness:
  "length (merge_and_label (coerce_segments (merge_and_label example_segments 1 2)) 1 2)
     \<le> length (merge_and_label example_segments 1 2)
   \<and> length (merge_and_label example_segments 1 2) = 3
   \<and> list_all (\<lambda>u. uspeaker u = ''I'' \<or> uspeaker u = ''D'')
        (merge_and_label (coerce_segments (merge_and_label example_segments 1 2)) 1 2)"
proof -
  have a: "length (merge_and_label example_segments 1 2) = 3"
    by (simp only: example_first_pass) simp
  show ?thesis
    using merge_and_label_twice_shrinks [of example_segments 1 2] a
    by (simp add: list_all_iff)
qed

section \<open>Properties of the transcription driver\<close>

lemma example_run:
  "snd (transcribe_job queued_db example_world ''/tmp/a.m4a'' ''j1'' 1 1) =
     ([Progress \<lparr>pstatus = ''preprocessing'', stage = ''preprocess'', percent = 3,
                  chunksDone = 0, chunksTotal = 0\<rparr>,
       Progress \<lparr>pstatus = ''transcribing_openai'', stage = ''transcribe'', percent = 50,
                  chunksDone = 1, chunksTotal = 2\<rparr>,
       Progress \<lparr>pstatus = ''transcribing_fallback'', stage = ''transcribe'', percent = 45,
                  chunksDone = 1, chunksTotal = 2\<rparr>,
       Progress \<lparr>pstatus = ''transcribing_openai'', stage = ''transcribe'', percent = 90,
                  chunksDone = 2, chunksTotal = 2\<rparr>,
       Progress \<lparr>pstatus = ''merging'', stage = ''merge'', percent = 94,
                  chunksDone = 2, chunksTotal = 2\<rparr>,
       Result 300
         [\<lparr>startSec = 0, endSec = 3, uspeaker = ''I'', utext = ''Hvem?'', uconfidence = None\<rparr>,
          \<lparr>startSec = 479 / 2, endSec = 481 / 2, uspeaker = ''I'', utext = ''Bo'', uconfidence = None\<rparr>,
          \<lparr>startSec = 483 / 2, endSec = 485 / 2, uspeaker = ''D'', utext = ''Ib'', uconfidence = None\<rparr>]],
      Inr 0)"
  by code_simp

text \<open>
  Claim C6 at a run of two chunks in which the remote engine fails on the second chunk:
  the progress events of stage \<open>transcribe\<close> carry 50 (chunk 1 done), then 45 (the notice
  that the fallback engine is tried, computed with the factor 70), then 90 (chunk 2 done).
  The percentage drops from 50 to 45 inside the stage; the run ends with exit code 0.
\<close>

theorem progress_percent_drops_within_stage:
  "stage_percents ''transcribe''
      (fst (snd (transcribe_job queued_db example_world ''/tmp/a.m4a'' ''j1'' 1 1))) = [50, 45, 90]
   \<and> snd (snd (transcribe_job queued_db example_world ''/tmp/a.m4a'' ''j1'' 1 1)) = Inr 0
   \<and> \<not> sorted [50, 45, 90 :: real]"
  by (simp add: example_run stage_percents_def)

subsection \<open>The count of finished chunks never goes down\<close>

text \<open>
  The other half of the progress property holds for every run: the \<^verbatim>\<open>chunksDone\<close> values
  of the emitted events are in non-decreasing order, whatever the engines answer.
\<close>

lemma events_chunks_done_append [simp]:
  "events_chunks_done (xs @ ys) = events_chunks_done xs @ events_chunks_done ys"
  by (simp add: events_chunks_done_def)

lemma events_chunks_done_simps [simp]:
  "events_chunks_done [] = []"
  "events_chunks_done (Progress p # es) = chunksDone p # events_chunks_done es"
  "events_chunks_done (Paused p # es) = chunksDone p # events_chunks_done es"
  "events_chunks_done (Error m # es) = events_chunks_done es"
  "events_chunks_done (Result d t # es) = events_chunks_done es"
  by (simp_all add: events_chunks_done_def)

lemma chunksDone_progress_payload [simp]:
  "chunksDone (progress_payload st stg pct n_done n_total) = n_done"
  by (simp add: progress_payload_def)

lemma transcribe_rows_chunks_done:
  assumes "sorted (events_chunks_done events)"
    and "\<forall>x\<in>set (events_chunks_done events). x \<le> done_chunks"
  shows "(case transcribe_rows w jid total_chunks rows conn done_chunks events of
            (conn', done', events', code) \<Rightarrow>
              sorted (events_chunks_done events')
            \<and> (\<forall>x\<in>set (events_chunks_done events'). x \<le> done')
            \<and> done_chunks \<le> done')"
proof -
  define good :: "int \<Rightarrow> db \<times> int \<times> event list \<times> int option \<Rightarrow> bool" where
    "good = (\<lambda>d r. case r of
               (conn', done', events', code) \<Rightarrow>
                 sorted (events_chunks_done events')
               \<and> (\<forall>x\<in>set (events_chunks_done events'). x \<le> done')
               \<and> d \<le> done')"
  have "good done_chunks (transcribe_rows w jid total_chunks rows conn done_chunks events)"
    using assms
  proof (induction rows arbitrary: conn done_chunks events)
    case Nil
    then show ?case by (simp add: good_def)
  next
    case (Cons row rows)
    show ?case
    proof (cases "chunk_status row = ''done''")
      case True
      then show ?thesis using Cons.IH [OF Cons.prems] by simp
    next
      case False
      have step: "\<And>conn' evs pct. sorted (events_chunks_done evs)
          \<Longrightarrow> \<forall>x\<in>set (events_chunks_done evs). x \<le> done_chunks
          \<Longrightarrow> good done_chunks
                (transcribe_rows w jid total_chunks rows conn' (done_chunks + 1)
                   (evs @ [Progress (progress_payload ''transcribing_openai'' ''transcribe'' pct
                                       (done_chunks + 1) total_chunks)]))"
      proof -
        fix conn' evs pct
        assume a: "sorted (events_chunks_done evs)"
          and b: "\<forall>x\<in>set (events_chunks_done evs). x \<le> done_chunks"
        let ?evs = "evs @ [Progress (progress_payload ''transcribing_openai'' ''transcribe'' pct
                                       (done_chunks + 1) total_chunks)]"
        have s: "sorted (events_chunks_done ?evs)"
          using a b by (auto simp add: sorted_append)
        have c: "\<forall>x\<in>set (events_chunks_done ?evs). x \<le> done_chunks + 1"
          using b by auto
        have "good (done_chunks + 1)
                (transcribe_rows w jid total_chunks rows conn' (done_chunks + 1) ?evs)"
          using s c by (rule Cons.IH)
        then show "good done_chunks
                (transcribe_rows w jid total_chunks rows conn' (done_chunks + 1) ?evs)"
          by (auto simp add: good_def split: prod.splits)
      qed
      let ?fb = "events @ [Progress (progress_payload ''transcribing_fallback'' ''transcribe''
                            (10 + real_of_int done_chunks / real_of_int (max total_chunks 1) * 70)
                            done_chunks total_chunks)]"
      have fs: "sorted (events_chunks_done ?fb)"
        using Cons.prems by (auto simp add: sorted_append)
      have fc: "\<forall>x\<in>set (events_chunks_done ?fb). x \<le> done_chunks"
        using Cons.prems by auto
      show ?thesis
      proof (cases "remote w (idx row)")
        case (Inr ok)
        obtain segments avg_conf where ok: "ok = (segments, avg_conf)"
          by (cases ok)
        show ?thesis
          using False Inr ok step [OF Cons.prems] by (simp add: Let_def)
      next
        case (Inl openai_exc)
        show ?thesis
        proof (cases "fallback w (idx row)")
          case (FallbackOk segments coverage)
          then show ?thesis
            using False Inl step [OF fs fc] by (simp add: Let_def)
        next
          case (LowSpeakerConfidenceError conf_exc)
          then show ?thesis
            using False Inl fs fc by (auto simp add: Let_def good_def sorted_append)
        next
          case (FallbackError fallback_exc)
          then show ?thesis
            using False Inl fs fc by (simp add: Let_def good_def)
        qed
      qed
    qed
  qed
  then show ?thesis by (simp add: good_def)
qed

lemma transcribe_job_chunks_done_sorted:
  "sorted (events_chunks_done (fst (snd (transcribe_job conn w source jid ic pc))))"
proof (cases "source_exists w")
  case False
  then show ?thesis by (simp add: transcribe_job_def)
next
  case True
  let ?conn1 = "update_job_status conn (now_iso w) jid ''preprocessing'' None None None"
  let ?events1 = "[Progress (progress_payload ''preprocessing'' ''preprocess'' 3 0 0)]"
  show ?thesis
  proof (cases "preprocess_if_needed ?conn1 w jid")
    case (Inl e)
    then show ?thesis using True by (simp add: transcribe_job_def Let_def)
  next
    case (Inr ok)
    obtain conn2 duration chunk_rows where ok: "ok = (conn2, duration, chunk_rows)"
      by (cases ok) auto
    let ?total = "int (length chunk_rows)"
    let ?done = "int (length (filter (\<lambda>row. chunk_status row = ''done'') chunk_rows))"
    let ?conn3 = "update_job_status conn2 (now_iso w) jid ''transcribing_openai''
                    (Some ?done) (Some ?total) None"
    obtain conn4 done1 events2 code
      where r: "transcribe_rows w jid ?total chunk_rows ?conn3 ?done ?events1
                  = (conn4, done1, events2, code)"
      by (cases "transcribe_rows w jid ?total chunk_rows ?conn3 ?done ?events1") auto
    have "sorted (events_chunks_done ?events1)"
      and "\<forall>x\<in>set (events_chunks_done ?events1). x \<le> ?done"
      by simp_all
    from transcribe_rows_chunks_done [OF this, of w jid ?total chunk_rows ?conn3]
    have g: "sorted (events_chunks_done events2)"
      "\<forall>x\<in>set (events_chunks_done events2). x \<le> done1"
      using r by simp_all
    show ?thesis
      using True Inr ok r g
      by (cases code) (auto simp add: transcribe_job_def Let_def sorted_append split: option.splits)
  qed
qed

end
